theory Spec2Isabelle
  imports Main "HOL-Library.Sublist"
begin

section \<open>Data model\<close>

text \<open>
  The model follows \<^verbatim>\<open>geocontext/models/context_service_registry.py\<close>,
  \<^verbatim>\<open>geocontext/models/utilities.py\<close> and
  \<^verbatim>\<open>geocontext/serializers/context_group.py\<close>.

  Coordinates are Python floats; no property below depends on their arithmetic, so
  they are values of a type variable \<open>'a\<close>. The shape of a GEOS geometry is a value
  of a type variable \<open>'g\<close>. Strings are byte strings (UTF-8).
\<close>

datatype query_type = WFS | WCS | WMS | REST | WIKIPEDIA

text \<open>
  \<^verbatim>\<open>ContextServiceRegistry\<close>. The fields \<^verbatim>\<open>description\<close>, \<^verbatim>\<open>user\<close>,
  \<^verbatim>\<open>password\<close>, \<^verbatim>\<open>api_key\<close> and \<^verbatim>\<open>query_url\<close> are read by none of the
  functions below and are left out. \<^verbatim>\<open>time_to_live\<close> and \<^verbatim>\<open>srid\<close> are
  declared \<^verbatim>\<open>null=True\<close>, so they are optional.
\<close>

record registry =
  key :: string
  name :: string
  url :: string
  query_type :: query_type
  result_regex :: string
  time_to_live :: "int option"
  srid :: "int option"
  layer_typename :: string
  service_version :: string

text \<open>Every exception the modelled code can raise or let through.\<close>

datatype error =
    DoesNotExist          \<comment> \<open>\<^verbatim>\<open>ContextServiceRegistry.objects.get\<close> finds no row\<close>
  | AttributeError        \<comment> \<open>\<^verbatim>\<open>None.contains(point)\<close>\<close>
  | TypeError             \<comment> \<open>\<^verbatim>\<open>timedelta(seconds=None)\<close>\<close>
  | ExpatError            \<comment> \<open>\<^verbatim>\<open>minidom.parseString\<close> on a payload that is not well-formed\<close>
  | ValueError            \<comment> \<open>\<^verbatim>\<open>minidom.parseString\<close> on a document in a multi-byte encoding\<close>
  | LookupError           \<comment> \<open>\<^verbatim>\<open>minidom.parseString\<close> on a document in an unknown encoding\<close>
  | MissingSchema         \<comment> \<open>\<^verbatim>\<open>requests.get(None)\<close>\<close>
  | MultipleObjectsReturned  \<comment> \<open>\<^verbatim>\<open>objects.get\<close> finds several rows\<close>
  | ReprojectionError     \<comment> \<open>raised inside \<^verbatim>\<open>convert_coordinate\<close>\<close>
  | UpstreamError string  \<comment> \<open>raised by the HTTP or WMS client, or by the GML parser\<close>

record 'a point =
  px :: 'a
  py :: 'a
  point_srid :: int

text \<open>A GEOS geometry: its shape and its \<^verbatim>\<open>srid\<close> attribute (\<^verbatim>\<open>None\<close> when unset).\<close>

record 'g geos =
  shape :: 'g
  geos_srid :: "int option"

text \<open>
  Modelled from the spec: \<^verbatim>\<open>ContextCache\<close> (\<^verbatim>\<open>geocontext/models/context_cache.py\<close>
  is not among the sources). The spec's CacheEntry has \<open>descriptorKey\<close>, \<open>name\<close>,
  \<open>value\<close>, an optional \<open>geometry\<close> ("absent for point-only protocols such as WMS"),
  \<open>sourceURI\<close> and \<open>expiresAt\<close>; the constructor call in
  \<^verbatim>\<open>retrieve_context_value\<close> names the same fields. \<open>pk\<close> is the row's primary key,
  \<open>service_registry\<close> the key of the registry the row belongs to. Times are seconds
  (UTC).
\<close>

record 'g context_cache =
  pk :: nat
  service_registry :: string
  cache_name :: string
  cache_value :: "string option"
  geometry :: "'g geos option"
  source_uri :: "string option"
  expired_time :: int

text \<open>
  A DOM tree as \<^verbatim>\<open>xml.dom.minidom\<close> builds it: an element with its tag name and
  child nodes, or a character-data node (text, CDATA, comment) whose
  \<^verbatim>\<open>nodeValue\<close> is its data. The \<^verbatim>\<open>nodeValue\<close> of an element is \<^verbatim>\<open>None\<close>.
\<close>

datatype node = Element string "node list" | CharData string

text \<open>A request sent over the network.\<close>

datatype 'a request =
    HttpGet string
  | GetFeatureInfo string string string "'a list" int

text \<open>
  The database and the outside world: the registry table, the cache table in
  the order a query returns its rows, the next primary key, the clock
  (\<^verbatim>\<open>datetime.utcnow()\<close>) and the log of network requests sent so far.
\<close>

record ('a, 'g) world =
  registries :: "registry list"
  caches :: "'g context_cache list"
  next_pk :: nat
  utcnow :: int
  sent :: "'a request list"

text \<open>
  The collaborators the code calls and whose code is not modelled:
  \<^verbatim>\<open>convert_coordinate\<close>, \<^verbatim>\<open>get_bbox\<close> and \<^verbatim>\<open>parse_gml_geometry\<close>
  (\<^verbatim>\<open>geocontext/utilities.py\<close>, not among the sources), Python's \<^verbatim>\<open>str\<close> on a
  float, GEOS containment and the truth value of a geometry (of its shape), \<^verbatim>\<open>requests.get(url).content\<close>,
  owslib's \<^verbatim>\<open>getfeatureinfo\<close> (the payload read and \<^verbatim>\<open>geturl()\<close>), and
  \<^verbatim>\<open>minidom.parseString\<close> (the document's child nodes, or the exception the
  parser raises: \<^verbatim>\<open>ExpatError\<close> on a payload that is not well-formed XML, but also
  \<^verbatim>\<open>ValueError\<close> on a document, well-formed or not, that declares a multi-byte
  encoding and \<^verbatim>\<open>LookupError\<close> on one that declares an unknown encoding).
\<close>

record ('a, 'g) env =
  convert_coordinate :: "'a \<Rightarrow> 'a \<Rightarrow> int \<Rightarrow> int option \<Rightarrow> error + 'a \<times> 'a"
  get_bbox :: "'a \<Rightarrow> 'a \<Rightarrow> 'a list"
  str_float :: "'a \<Rightarrow> string"
  contains :: "'g geos \<Rightarrow> 'a point \<Rightarrow> bool"
  truthy :: "'g \<Rightarrow> bool"
  parse_gml_geometry :: "string \<Rightarrow> string option \<Rightarrow> error + 'g geos option"
  requests_get :: "string \<Rightarrow> error + string"
  wms_getfeatureinfo ::
    "string \<Rightarrow> string \<Rightarrow> string \<Rightarrow> 'a list \<Rightarrow> int \<Rightarrow> error + string \<times> string option"
  parseString :: "string \<Rightarrow> error + node list"

section \<open>Building the query URL\<close>

text \<open>
  \<^verbatim>\<open>urllib.parse.quote_plus\<close> (through \<^verbatim>\<open>QueryDict.urlencode()\<close> with no
  \<^verbatim>\<open>safe\<close> argument): an unreserved byte stays, a space becomes \<open>+\<close>, every other
  byte becomes \<open>%XX\<close> in upper-case hexadecimal.
\<close>

definition always_safe :: "char \<Rightarrow> bool" where
  "always_safe c \<longleftrightarrow>
     c \<in> set ''ABCDEFGHIJKLMNOPQRSTUVWXYZabcdefghijklmnopqrstuvwxyz0123456789_.-~''"

definition hex_digit :: "nat \<Rightarrow> char" where
  "hex_digit n = ''0123456789ABCDEF'' ! (n mod 16)"

definition quote_byte :: "char \<Rightarrow> string" where
  "quote_byte c =
     (if always_safe c then [c]
      else if c = CHR '' '' then ''+''
      else [CHR ''%'', hex_digit (of_char c div 16), hex_digit (of_char c mod 16)])"

definition quote_plus :: "string \<Rightarrow> string" where
  "quote_plus s = concat (map quote_byte s)"

text \<open>\<^verbatim>\<open>sep.join(parts)\<close>.\<close>

fun join :: "string \<Rightarrow> string list \<Rightarrow> string" where
  "join sep [] = []"
| "join sep [p] = p"
| "join sep (p # q # ps) = p @ sep @ join sep (q # ps)"

text \<open>
  \<^verbatim>\<open>QueryDict.urlencode()\<close> of a query dict holding one value per key, the keys in
  insertion order: \<open>k=v\<close> terms, both sides quoted, joined by \<open>&\<close>.
\<close>

definition urlencode :: "(string \<times> string) list \<Rightarrow> string" where
  "urlencode ps = join ''&'' (map (\<lambda>(k, v). quote_plus k @ ''='' @ quote_plus v) ps)"

text \<open>Python's \<^verbatim>\<open>str\<close> of an integer, and \<^verbatim>\<open>'%s' % self.srid\<close>.\<close>

definition digit_char :: "nat \<Rightarrow> char" where
  "digit_char n = ''0123456789'' ! (n mod 10)"

fun str_nat :: "nat \<Rightarrow> string" where
  "str_nat n = (if n < 10 then [digit_char n] else str_nat (n div 10) @ [digit_char n])"

declare str_nat.simps [simp del]

definition str_int :: "int \<Rightarrow> string" where
  "str_int i = (if i < 0 then CHR ''-'' # str_nat (nat (- i)) else str_nat (nat i))"

definition str_srid :: "int option \<Rightarrow> string" where
  "str_srid s = (case s of None \<Rightarrow> ''None'' | Some i \<Rightarrow> str_int i)"

text \<open>
  \<^verbatim>\<open>ContextServiceRegistry.build_query_url\<close>. For a query type other than WFS the
  method falls off its end and returns \<^verbatim>\<open>None\<close>.
\<close>

definition build_query_url ::
    "('a, 'g) env \<Rightarrow> registry \<Rightarrow> 'a \<Rightarrow> 'a \<Rightarrow> int \<Rightarrow> error + string option" where
  "build_query_url env r x y srid' =
     (if query_type r = WFS then
        (case (if Some srid' \<noteq> srid r then convert_coordinate env x y srid' (srid r)
               else Inr (x, y)) of
           Inl e \<Rightarrow> Inl e
         | Inr (x', y') \<Rightarrow>
             let bbox = get_bbox env x' y';
                 bbox_string = join '','' (map (str_float env) bbox);
                 query = urlencode
                   [(''SERVICE'', ''WFS''),
                    (''REQUEST'', ''GetFeature''),
                    (''VERSION'', service_version r),
                    (''TYPENAME'', layer_typename r),
                    (''OUTPUTFORMAT'', ''GML3'')];
                 u = (if CHR ''?'' \<in> set (url r) then url r @ ''&'' @ query
                      else url r @ ''?'' @ query);
                 u = (if CHR '':'' \<notin> set (layer_typename r)
                      then u @ ''&SRSNAME='' @ str_srid (srid r) else u)
             in Inr (Some (u @ ''&BBOX='' @ bbox_string)))
      else Inr None)"

section \<open>Parsing the response\<close>

text \<open>
  \<^verbatim>\<open>_get_elements_by_tagName_helper\<close> of \<^verbatim>\<open>xml.dom.minidom\<close>, which
  \<^verbatim>\<open>getElementsByTagName\<close> runs on the document: the descendant elements in
  document order whose tag name is the given name; the name \<open>*\<close> matches every
  element.
\<close>

fun get_elements_by_tagName_helper :: "string \<Rightarrow> node list \<Rightarrow> node list" where
  "get_elements_by_tagName_helper nm [] = []"
| "get_elements_by_tagName_helper nm (Element t cs # ns) =
     (if nm = ''*'' \<or> t = nm then [Element t cs] else [])
     @ get_elements_by_tagName_helper nm cs
     @ get_elements_by_tagName_helper nm ns"
| "get_elements_by_tagName_helper nm (CharData d # ns) =
     get_elements_by_tagName_helper nm ns"

fun childNodes :: "node \<Rightarrow> node list" where
  "childNodes (Element t cs) = cs"
| "childNodes (CharData d) = []"

fun nodeValue :: "node \<Rightarrow> string option" where
  "nodeValue (Element t cs) = None"
| "nodeValue (CharData d) = Some d"

text \<open>
  \<^verbatim>\<open>ContextServiceRegistry.parse_request_value\<close>. Both \<^verbatim>\<open>[0]\<close> subscripts
  stand inside the \<^verbatim>\<open>try\<close>, so an \<^verbatim>\<open>IndexError\<close> of either gives \<^verbatim>\<open>None\<close>;
  \<^verbatim>\<open>minidom.parseString\<close> stands outside it, so whatever the parser raises
  leaves the method. For a query type other than WFS and WMS the method falls off its
  end and returns \<^verbatim>\<open>None\<close>.
\<close>

definition parse_request_value ::
    "('a, 'g) env \<Rightarrow> registry \<Rightarrow> string \<Rightarrow> error + string option" where
  "parse_request_value env r request_content =
     (if query_type r \<in> {WFS, WMS} then
        (case parseString env request_content of
           Inl e \<Rightarrow> Inl e
         | Inr xmldoc \<Rightarrow>
             (case get_elements_by_tagName_helper (result_regex r) xmldoc of
                [] \<Rightarrow> Inr None
              | value_dom # _ \<Rightarrow>
                  (case childNodes value_dom of
                     [] \<Rightarrow> Inr None
                   | c # _ \<Rightarrow> Inr (nodeValue c))))
      else Inr None)"

section \<open>Fetching a value and storing it\<close>

type_synonym ('a, 'g) outcome = "(error + 'g context_cache option) \<times> ('a, 'g) world"

text \<open>
  The end of \<^verbatim>\<open>retrieve_context_value\<close>, from "Create cache here" on, which both
  branches reach: \<^verbatim>\<open>timedelta(seconds=None)\<close> raises; the source URI is set for a
  non-empty URL, the geometry for a geometry that is true; \<^verbatim>\<open>save()\<close> adds the
  row under the next primary key.

  Modelled from the spec: \<^verbatim>\<open>ContextCache.set_geometry_field\<close>
  (\<^verbatim>\<open>geocontext/models/context_cache.py\<close> is not among the sources) stores the
  geometry as the entry's geometry.
\<close>

definition create_cache ::
    "('a, 'g) env \<Rightarrow> ('a, 'g) world \<Rightarrow> registry \<Rightarrow> string option \<Rightarrow> 'g geos option \<Rightarrow>
     string option \<Rightarrow> ('a, 'g) outcome" where
  "create_cache env w r val geom u =
     (case time_to_live r of
        None \<Rightarrow> (Inl TypeError, w)
      | Some ttl \<Rightarrow>
          let context_cache =
                \<lparr>pk = next_pk w,
                 service_registry = key r,
                 cache_name = key r,
                 cache_value = val,
                 geometry = (case geom of
                               None \<Rightarrow> None
                             | Some g \<Rightarrow> if truthy env (shape g) then Some g else None),
                 source_uri = (case u of
                                 None \<Rightarrow> None
                               | Some s \<Rightarrow> if s = [] then None else Some s),
                 expired_time = utcnow w + ttl\<rparr>
          in (Inr (Some context_cache),
              w\<lparr>caches := caches w @ [context_cache], next_pk := Suc (next_pk w)\<rparr>))"

text \<open>
  The second argument of \<^verbatim>\<open>parse_gml_geometry\<close>:
  \<^verbatim>\<open>layer_typename.split(':')[0]\<close> when the type name has a colon, none (the
  parameter's default) otherwise.
\<close>

definition workspace :: "string \<Rightarrow> string option" where
  "workspace typename =
     (if CHR '':'' \<in> set typename then Some (takeWhile (\<lambda>c. c \<noteq> CHR '':'') typename)
      else None)"

text \<open>
  \<^verbatim>\<open>ContextServiceRegistry.retrieve_context_value\<close>. A request is logged when it
  is sent; \<^verbatim>\<open>requests.get(None)\<close> raises before anything is sent. The WMS branch
  (the \<^verbatim>\<open>WebMapService\<close> constructor and \<^verbatim>\<open>getfeatureinfo\<close>) is one call of the
  WMS client.
\<close>

definition retrieve_context_value ::
    "('a, 'g) env \<Rightarrow> ('a, 'g) world \<Rightarrow> registry \<Rightarrow> 'a \<Rightarrow> 'a \<Rightarrow> int \<Rightarrow> ('a, 'g) outcome" where
  "retrieve_context_value env w r x y srid' =
     (if query_type r = WMS then
        (let bbox = get_bbox env x y;
             w1 = w\<lparr>sent := sent w @
                    [GetFeatureInfo (url r) (service_version r) (layer_typename r) bbox srid']\<rparr>
         in case wms_getfeatureinfo env (url r) (service_version r) (layer_typename r)
                   bbox srid' of
              Inl e \<Rightarrow> (Inl e, w1)
            | Inr (content, u) \<Rightarrow>
                (case parse_request_value env r content of
                   Inl e \<Rightarrow> (Inl e, w1)
                 | Inr val \<Rightarrow> create_cache env w1 r val None u))
      else
        (case build_query_url env r x y srid' of
           Inl e \<Rightarrow> (Inl e, w)
         | Inr None \<Rightarrow> (Inl MissingSchema, w)
         | Inr (Some u) \<Rightarrow>
             (let w1 = w\<lparr>sent := sent w @ [HttpGet u]\<rparr> in
              case requests_get env u of
                Inl e \<Rightarrow> (Inl e, w1)
              | Inr content \<Rightarrow>
                  (case parse_gml_geometry env content (workspace (layer_typename r)) of
                     Inl e \<Rightarrow> (Inl e, w1)
                   | Inr None \<Rightarrow> (Inr None, w1)
                   | Inr (Some g) \<Rightarrow>
                       if \<not> truthy env (shape g) then (Inr None, w1)
                       else
                         (let g' = (if geos_srid g = None \<or> geos_srid g = Some 0
                                    then g\<lparr>geos_srid := srid r\<rparr> else g)
                          in case parse_request_value env r content of
                               Inl e \<Rightarrow> (Inl e, w1)
                             | Inr val \<Rightarrow> create_cache env w1 r val (Some g') (Some u))))))"

section \<open>The cache lookup\<close>

text \<open>
  The point of \<^verbatim>\<open>retrieve_context\<close>, in SRID 4326.
\<close>

definition make_point :: "('a, 'g) env \<Rightarrow> 'a \<Rightarrow> 'a \<Rightarrow> int \<Rightarrow> error + 'a point" where
  "make_point env x y srid' =
     (if srid' \<noteq> 4326 then
        (case convert_coordinate env x y srid' (Some 4326) of
           Inl e \<Rightarrow> Inl e
         | Inr (x', y') \<Rightarrow> Inr \<lparr>px = x', py = y', point_srid = 4326\<rparr>)
      else Inr \<lparr>px = x, py = y, point_srid = 4326\<rparr>)"

text \<open>\<^verbatim>\<open>ContextServiceRegistry.objects.get(key=...)\<close>.\<close>

definition get_registry :: "('a, 'g) world \<Rightarrow> string \<Rightarrow> error + registry" where
  "get_registry w k =
     (case filter (\<lambda>r. key r = k) (registries w) of
        [] \<Rightarrow> Inl DoesNotExist
      | [r] \<Rightarrow> Inr r
      | _ \<Rightarrow> Inl MultipleObjectsReturned)"

text \<open>
  The \<^verbatim>\<open>for cache in caches\<close> loop of \<^verbatim>\<open>retrieve_context\<close>, with its three
  exits: \<^verbatim>\<open>return cache\<close> (\<open>Hit\<close>), \<^verbatim>\<open>cache.delete(); break\<close>
  (\<open>Expired\<close>), and the end of the list (\<open>Miss\<close>). The clock is read once for
  the whole scan. \<^verbatim>\<open>cache.geometry.contains(point)\<close> raises on an entry whose
  geometry is \<^verbatim>\<open>None\<close>.
\<close>

datatype 'g lookup = Hit "'g context_cache" | Expired "'g context_cache" | Miss

fun scan_caches ::
    "('a, 'g) env \<Rightarrow> int \<Rightarrow> 'a point \<Rightarrow> 'g context_cache list \<Rightarrow> error + 'g lookup" where
  "scan_caches env now point [] = Inr Miss"
| "scan_caches env now point (cache # rest) =
     (case geometry cache of
        None \<Rightarrow> Inl AttributeError
      | Some g \<Rightarrow>
          if contains env g point then
            (if now < expired_time cache then Inr (Hit cache) else Inr (Expired cache))
          else scan_caches env now point rest)"

text \<open>
  \<^verbatim>\<open>retrieve_context\<close>. \<^verbatim>\<open>objects.get\<close> raises when the key is unknown, so the
  \<^verbatim>\<open>if not service_registry\<close> test after it never fires. \<^verbatim>\<open>cache.delete()\<close>
  deletes the row with the entry's primary key.
\<close>

definition retrieve_context ::
    "('a, 'g) env \<Rightarrow> ('a, 'g) world \<Rightarrow> 'a \<Rightarrow> 'a \<Rightarrow> string \<Rightarrow> int \<Rightarrow> ('a, 'g) outcome" where
  "retrieve_context env w x y service_registry_key srid' =
     (case make_point env x y srid' of
        Inl e \<Rightarrow> (Inl e, w)
      | Inr point \<Rightarrow>
          (case get_registry w service_registry_key of
             Inl e \<Rightarrow> (Inl e, w)
           | Inr r \<Rightarrow>
               (case scan_caches env (utcnow w) point
                       (filter (\<lambda>c. service_registry c = key r) (caches w)) of
                  Inl e \<Rightarrow> (Inl e, w)
                | Inr (Hit cache) \<Rightarrow> (Inr (Some cache), w)
                | Inr (Expired cache) \<Rightarrow>
                    retrieve_context_value env
                      (w\<lparr>caches := filter (\<lambda>c. pk c \<noteq> pk cache) (caches w)\<rparr>) r x y srid'
                | Inr Miss \<Rightarrow> retrieve_context_value env w r x y srid')))"

section \<open>Group resolution\<close>

text \<open>
  \<^verbatim>\<open>ContextGroupValue.populate_service_registry_values\<close>: the loop over the
  group's registry keys (in their \<^verbatim>\<open>order\<close>), appending what
  \<^verbatim>\<open>retrieve_context\<close> returns. There is no \<^verbatim>\<open>try\<close> around the call.
\<close>

fun populate_loop ::
    "('a, 'g) env \<Rightarrow> 'a \<Rightarrow> 'a \<Rightarrow> int \<Rightarrow> string list \<Rightarrow> 'g context_cache option list \<Rightarrow>
     ('a, 'g) world \<Rightarrow> (error + 'g context_cache option list) \<times> ('a, 'g) world" where
  "populate_loop env x y srid' [] acc w = (Inr acc, w)"
| "populate_loop env x y srid' (k # ks) acc w =
     (case retrieve_context env w x y k srid' of
        (Inl e, w') \<Rightarrow> (Inl e, w')
      | (Inr context_cache, w') \<Rightarrow> populate_loop env x y srid' ks (acc @ [context_cache]) w')"

definition populate_service_registry_values ::
    "('a, 'g) env \<Rightarrow> ('a, 'g) world \<Rightarrow> 'a \<Rightarrow> 'a \<Rightarrow> int \<Rightarrow> string list \<Rightarrow>
     (error + 'g context_cache option list) \<times> ('a, 'g) world" where
  "populate_service_registry_values env w x y srid' keys = populate_loop env x y srid' keys [] w"

section \<open>Notions the properties are stated with\<close>


text \<open>
  The database's guarantee on primary keys: no two rows of the cache table share one,
  and the next key handed out is larger than every key in use.
\<close>

definition pk_invariant :: "('a, 'g) world \<Rightarrow> bool" where
  "pk_invariant w \<longleftrightarrow>
     distinct (map pk (caches w)) \<and> (\<forall>c\<in>set (caches w). pk c < next_pk w)"

text \<open>
  Every cache entry of a registry that is not a WMS registry carries a geometry:
  \<^verbatim>\<open>retrieve_context_value\<close> stores an entry without one on its WMS branch only.
\<close>

definition geometry_invariant :: "('a, 'g) world \<Rightarrow> bool" where
  "geometry_invariant w \<longleftrightarrow>
     (\<forall>c\<in>set (caches w). \<forall>r\<in>set (registries w).
        key r = service_registry c \<and> query_type r \<noteq> WMS \<longrightarrow> geometry c \<noteq> None)"

text \<open>
  Resolving the keys of a group one after the other, each in the world the one before
  left, whatever the outcomes: the outcome of every key, with the world after it.
  This is what "resolve each" means, stated apart from the loop of
  \<^verbatim>\<open>populate_service_registry_values\<close>.
\<close>

fun resolve_in_turn ::
    "('a, 'g) env \<Rightarrow> ('a, 'g) world \<Rightarrow> 'a \<Rightarrow> 'a \<Rightarrow> int \<Rightarrow> string list \<Rightarrow>
     ('a, 'g) outcome list" where
  "resolve_in_turn env w x y srid' [] = []"
| "resolve_in_turn env w x y srid' (k # ks) =
     (case retrieve_context env w x y k srid' of
        (res, w') \<Rightarrow> (res, w') # resolve_in_turn env w' x y srid' ks)"

text \<open>
  Every cache entry that carries a geometry belongs to a WFS registry:
  \<^verbatim>\<open>retrieve_context_value\<close> stores a geometry only after
  \<^verbatim>\<open>build_query_url\<close> has given a URL, which it does for WFS only.
\<close>

definition wfs_invariant :: "('a, 'g) world \<Rightarrow> bool" where
  "wfs_invariant w \<longleftrightarrow>
     (\<forall>c\<in>set (caches w). \<forall>r\<in>set (registries w).
        key r = service_registry c \<and> geometry c \<noteq> None \<longrightarrow> query_type r = WFS)"

section \<open>A test double for the collaborators\<close>

text \<open>
  Concrete collaborators for the closed examples below: integer coordinates, boxes
  \<open>(x0, y0, x1, y1)\<close> as geometries, and an upstream that serves three payloads.
  The service at \<open>http://svc/wfs\<close> answers with a value and a geometry, the one at
  \<open>http://svc/nogeom\<close> with a value and no geometry, every other HTTP service is
  down; the WMS client answers with a value. Every cache entry of the examples covers the
  query point \<open>(10, 20)\<close>. The XML parser knows these payloads, raises
  \<^verbatim>\<open>ValueError\<close> on \<open>sjis_document\<close> and \<^verbatim>\<open>ExpatError\<close> on anything else.
\<close>

text \<open>
  A well-formed document in a multi-byte encoding:
  \<^verbatim>\<open><?xml version="1.0" encoding="shift_jis"?><v>7</v>\<close>.
\<close>

definition sjis_document :: string where
  "sjis_document =
     ''<?xml version='' @ [CHR 0x22] @ ''1.0'' @ [CHR 0x22] @ '' encoding='' @ [CHR 0x22]
     @ ''shift_jis'' @ [CHR 0x22] @ ''?><v>7</v>''"

definition demo_env :: "(int, int \<times> int \<times> int \<times> int) env" where
  "demo_env =
     \<lparr>convert_coordinate =
        (\<lambda>x y s t. if t = Some s then Inr (x, y) else Inl ReprojectionError),
      get_bbox = (\<lambda>x y. [x - 1, y - 1, x + 1, y + 1]),
      str_float = str_int,
      contains =
        (\<lambda>g p. case shape g of
                 (x0, y0, x1, y1) \<Rightarrow> x0 \<le> px p \<and> px p \<le> x1 \<and> y0 \<le> py p \<and> py p \<le> y1),
      truthy = (\<lambda>b. True),
      parse_gml_geometry =
        (\<lambda>content ws.
           if content = ''<f><v>42</v><box/></f>''
           then Inr (Some \<lparr>shape = (0, 0, 100, 100), geos_srid = None\<rparr>)
           else Inr None),
      requests_get =
        (\<lambda>u. if prefix ''http://svc/wfs'' u then Inr ''<f><v>42</v><box/></f>''
             else if prefix ''http://svc/nogeom'' u then Inr ''<f><v>42</v></f>''
             else Inl (UpstreamError ''connection refused'')),
      wms_getfeatureinfo =
        (\<lambda>u ver layer bbox s. Inr (''<v>7</v>'', Some (u @ ''?REQUEST=GetFeatureInfo''))),
      parseString =
        (\<lambda>content.
           if content = ''<f><v>42</v><box/></f>''
           then Inr [Element ''f'' [Element ''v'' [CharData ''42''], Element ''box'' []]]
           else if content = ''<f><v>42</v></f>''
           then Inr [Element ''f'' [Element ''v'' [CharData ''42'']]]
           else if content = ''<v>7</v>''
           then Inr [Element ''v'' [CharData ''7'']]
           else if content = sjis_document
           then Inl ValueError
           else Inl ExpatError)\<rparr>"

definition wfs_ns :: registry where
  "wfs_ns =
     \<lparr>key = ''wfs_ns'', name = ''WFS with workspace'', url = ''http://svc/wfs'',
      query_type = WFS, result_regex = ''v'', time_to_live = Some 604800,
      srid = Some 4326, layer_typename = ''ns:layer'', service_version = ''2.0.0''\<rparr>"

definition wfs_plain :: registry where
  "wfs_plain = wfs_ns\<lparr>key := ''wfs_plain'', layer_typename := ''layer''\<rparr>"

definition wfs_down :: registry where
  "wfs_down = wfs_ns\<lparr>key := ''wfs_down'', url := ''http://down/wfs''\<rparr>"

definition wfs_nogeom :: registry where
  "wfs_nogeom = wfs_ns\<lparr>key := ''wfs_nogeom'', url := ''http://svc/nogeom''\<rparr>"

definition wms_demo :: registry where
  "wms_demo = wfs_ns\<lparr>key := ''wms'', url := ''http://svc/wms'', query_type := WMS\<rparr>"

definition rest_demo :: registry where
  "rest_demo =
     wfs_ns\<lparr>key := ''rest'', url := ''http://svc/rest'', query_type := REST,
            result_regex := ''(42)''\<rparr>"


definition demo_world :: "(int, int \<times> int \<times> int \<times> int) world" where
  "demo_world =
     \<lparr>registries = [wfs_ns, wfs_plain, wfs_down, wfs_nogeom, wms_demo, rest_demo],
      caches = [], next_pk = 1, utcnow = 1000, sent = []\<rparr>"

definition expired_entry :: "(int \<times> int \<times> int \<times> int) context_cache" where
  "expired_entry =
     \<lparr>pk = 1, service_registry = ''wfs_ns'', cache_name = ''wfs_ns'',
      cache_value = Some ''stale'',
      geometry = Some \<lparr>shape = (0, 0, 100, 100), geos_srid = Some 4326\<rparr>,
      source_uri = None, expired_time = 500\<rparr>"

definition live_entry :: "(int \<times> int \<times> int \<times> int) context_cache" where
  "live_entry =
     \<lparr>pk = 2, service_registry = ''wfs_ns'', cache_name = ''wfs_ns'',
      cache_value = Some ''fresh'',
      geometry = Some \<lparr>shape = (0, 0, 50, 50), geos_srid = Some 4326\<rparr>,
      source_uri = None, expired_time = 2000\<rparr>"

text \<open>Two overlapping entries of one registry, the expired one scanned first.\<close>

definition overlap_world :: "(int, int \<times> int \<times> int \<times> int) world" where
  "overlap_world = demo_world\<lparr>caches := [expired_entry, live_entry], next_pk := 3\<rparr>"

text \<open>The same entries, the live one scanned first.\<close>

definition hit_world :: "(int, int \<times> int \<times> int \<times> int) world" where
  "hit_world = demo_world\<lparr>caches := [live_entry, expired_entry], next_pk := 3\<rparr>"

text \<open>The entry a WMS resolution stores in \<open>demo_world\<close>, and the world it leaves.\<close>

definition wms_entry :: "(int \<times> int \<times> int \<times> int) context_cache" where
  "wms_entry =
     \<lparr>pk = 1, service_registry = ''wms'', cache_name = ''wms'',
      cache_value = Some ''7'', geometry = None,
      source_uri = Some ''http://svc/wms?REQUEST=GetFeatureInfo'',
      expired_time = 605800\<rparr>"

definition wms_world :: "(int, int \<times> int \<times> int \<times> int) world" where
  "wms_world =
     demo_world\<lparr>caches := [wms_entry], next_pk := 2,
       sent := [GetFeatureInfo ''http://svc/wms'' ''2.0.0'' ''ns:layer'' [9, 19, 11, 21] 4326]\<rparr>"

text \<open>The point of the examples, the URL built for it, and the entry a fetch stores.\<close>

definition demo_point :: "int point" where
  "demo_point = \<lparr>px = 10, py = 20, point_srid = 4326\<rparr>"

definition demo_url :: string where
  "demo_url = ''http://svc/wfs?SERVICE=WFS&REQUEST=GetFeature&VERSION=2.0.0&TYPENAME=ns%3Alayer&OUTPUTFORMAT=GML3&BBOX=9,19,11,21''"

definition fresh_entry :: "nat \<Rightarrow> (int \<times> int \<times> int \<times> int) context_cache" where
  "fresh_entry n =
     \<lparr>pk = n, service_registry = ''wfs_ns'', cache_name = ''wfs_ns'',
      cache_value = Some ''42'',
      geometry = Some \<lparr>shape = (0, 0, 100, 100), geos_srid = Some 4326\<rparr>,
      source_uri = Some demo_url, expired_time = 605800\<rparr>"

definition nogeom_url :: string where
  "nogeom_url = ''http://svc/nogeom?SERVICE=WFS&REQUEST=GetFeature&VERSION=2.0.0&TYPENAME=ns%3Alayer&OUTPUTFORMAT=GML3&BBOX=9,19,11,21''"

definition down_url :: string where
  "down_url = ''http://down/wfs?SERVICE=WFS&REQUEST=GetFeature&VERSION=2.0.0&TYPENAME=ns%3Alayer&OUTPUTFORMAT=GML3&BBOX=9,19,11,21''"

section \<open>Properties of the query URL\<close>

lemma urlencode_wfs:
  "urlencode [(''SERVICE'', ''WFS''), (''REQUEST'', ''GetFeature''), (''VERSION'', v),
              (''TYPENAME'', t), (''OUTPUTFORMAT'', ''GML3'')] =
   ''SERVICE=WFS&REQUEST=GetFeature&VERSION='' @ quote_plus v @ ''&TYPENAME='' @ quote_plus t
     @ ''&OUTPUTFORMAT=GML3''"
  by (simp add: urlencode_def quote_plus_def quote_byte_def always_safe_def)

text \<open>A string of unreserved characters is its own encoding.\<close>

lemma quote_plus_unreserved: "\<forall>c\<in>set s. always_safe c \<Longrightarrow> quote_plus s = s"
  by (induction s) (simp_all add: quote_plus_def quote_byte_def)

lemma quote_plus_ns_layer: "quote_plus ''ns:layer'' = ''ns%3Alayer''"
  by (simp add: quote_plus_def quote_byte_def always_safe_def hex_digit_def)

lemma quote_plus_layer: "quote_plus ''layer'' = ''layer''"
  by (simp add: quote_plus_def quote_byte_def always_safe_def)

lemma quote_plus_version: "quote_plus ''2.0.0'' = ''2.0.0''"
  by (simp add: quote_plus_def quote_byte_def always_safe_def)

lemma str_int_4326: "str_int 4326 = ''4326''"
  by code_simp

lemma demo_bbox_string:
  "join '','' (map (str_float demo_env) (get_bbox demo_env 10 20)) = ''9,19,11,21''"
  unfolding demo_env_def by code_simp

lemma demo_url_ns:
  "build_query_url demo_env wfs_ns 10 20 4326 = Inr (Some
     ''http://svc/wfs?SERVICE=WFS&REQUEST=GetFeature&VERSION=2.0.0&TYPENAME=ns%3Alayer&OUTPUTFORMAT=GML3&BBOX=9,19,11,21'')"
  by (simp add: build_query_url_def urlencode_wfs Let_def wfs_ns_def demo_bbox_string
      quote_plus_ns_layer quote_plus_version)

text \<open>
  C5, as the code has it. For a WFS registry, \<open>build_query_url\<close> either lets the
  error of the coordinate conversion through (the conversion runs only when the
  point's SRID differs from the registry's), or returns the registry's URL, the
  joining character, \<open>SERVICE=WFS&REQUEST=GetFeature\<close>, \<open>VERSION\<close> and \<open>TYPENAME\<close>
  with the percent-encoded service version and layer type name,
  \<open>OUTPUTFORMAT=GML3\<close>, then \<open>SRSNAME\<close> with the registry's SRID exactly when the
  type name has no colon, then \<open>BBOX\<close> with the comma-joined bounding box of the
  (converted) point.
\<close>

theorem build_query_url_wfs:
  assumes "query_type r = WFS"
  shows "build_query_url env r x y s =
     (case (if Some s \<noteq> srid r then convert_coordinate env x y s (srid r) else Inr (x, y)) of
        Inl e \<Rightarrow> Inl e
      | Inr (x', y') \<Rightarrow>
          Inr (Some (url r @ (if CHR ''?'' \<in> set (url r) then ''&'' else ''?'')
            @ ''SERVICE=WFS&REQUEST=GetFeature&VERSION='' @ quote_plus (service_version r)
            @ ''&TYPENAME='' @ quote_plus (layer_typename r) @ ''&OUTPUTFORMAT=GML3''
            @ (if CHR '':'' \<in> set (layer_typename r) then []
               else ''&SRSNAME='' @ str_srid (srid r))
            @ ''&BBOX='' @ join '','' (map (str_float env) (get_bbox env x' y')))))"
  using assms
  by (simp add: build_query_url_def urlencode_wfs Let_def split: sum.splits prod.splits)

text \<open>
  The spec's example (base URL \<open>http://svc/wfs\<close>, version \<open>2.0.0\<close>, point (10, 20)):
  with layer \<open>ns:layer\<close> there is no \<open>SRSNAME\<close>, with layer \<open>layer\<close> there is.
\<close>

theorem build_query_url_wfs_witness:
  "query_type wfs_ns = WFS \<and> query_type wfs_plain = WFS
   \<and> build_query_url demo_env wfs_ns 10 20 4326 = Inr (Some
       ''http://svc/wfs?SERVICE=WFS&REQUEST=GetFeature&VERSION=2.0.0&TYPENAME=ns%3Alayer&OUTPUTFORMAT=GML3&BBOX=9,19,11,21'')
   \<and> build_query_url demo_env wfs_plain 10 20 4326 = Inr (Some
       ''http://svc/wfs?SERVICE=WFS&REQUEST=GetFeature&VERSION=2.0.0&TYPENAME=layer&OUTPUTFORMAT=GML3&SRSNAME=4326&BBOX=9,19,11,21'')"
  using build_query_url_wfs [of wfs_ns demo_env 10 20 4326]
        build_query_url_wfs [of wfs_plain demo_env 10 20 4326]
  by (simp add: wfs_ns_def wfs_plain_def demo_bbox_string quote_plus_ns_layer quote_plus_layer
        quote_plus_version str_srid_def str_int_4326)

text \<open>
  C5 as stated fails on the text of the URL: for the layer \<open>ns:layer\<close> the query
  string holds \<open>TYPENAME=ns%3Alayer\<close>, and \<open>TYPENAME=ns:layer\<close> occurs nowhere in it.
\<close>

theorem typename_percent_encoded:
  "build_query_url demo_env wfs_ns 10 20 4326 = Inr (Some
       ''http://svc/wfs?SERVICE=WFS&REQUEST=GetFeature&VERSION=2.0.0&TYPENAME=ns%3Alayer&OUTPUTFORMAT=GML3&BBOX=9,19,11,21'')
   \<and> \<not> sublist ''TYPENAME=ns:layer''
       ''http://svc/wfs?SERVICE=WFS&REQUEST=GetFeature&VERSION=2.0.0&TYPENAME=ns%3Alayer&OUTPUTFORMAT=GML3&BBOX=9,19,11,21''"
proof -
  have "\<not> sublist ''TYPENAME=ns:layer''
       ''http://svc/wfs?SERVICE=WFS&REQUEST=GetFeature&VERSION=2.0.0&TYPENAME=ns%3Alayer&OUTPUTFORMAT=GML3&BBOX=9,19,11,21''"
    by (simp add: sublist_Cons_right)
  with demo_url_ns show ?thesis by simp
qed

text \<open>
  C9. For a WFS registry, \<open>build_query_url\<close> fails only with the error of the
  coordinate conversion; otherwise it returns a URL that starts with the registry's
  URL, then \<open>?\<close> when the registry's URL has no \<open>?\<close> and \<open>&\<close> when it has one, then
  the first parameter, \<open>SERVICE=WFS\<close>.
\<close>

theorem query_string_joining:
  assumes "query_type r = WFS"
  shows "case build_query_url env r x y s of
           Inl e \<Rightarrow> Some s \<noteq> srid r \<and> convert_coordinate env x y s (srid r) = Inl e
         | Inr None \<Rightarrow> False
         | Inr (Some u) \<Rightarrow>
             prefix (url r @ (if CHR ''?'' \<in> set (url r) then ''&'' else ''?'')
                       @ ''SERVICE=WFS'') u"
  using assms
  by (auto simp add: build_query_url_def urlencode_wfs Let_def
        split: sum.splits prod.splits if_splits)

theorem query_string_joining_witness:
  "query_type wfs_ns = WFS
   \<and> (\<exists>u. build_query_url demo_env wfs_ns 10 20 4326 = Inr (Some u)
          \<and> prefix ''http://svc/wfs?SERVICE=WFS'' u)
   \<and> query_type (wfs_ns\<lparr>url := ''http://svc/wfs?map=a''\<rparr>) = WFS
   \<and> (\<exists>u. build_query_url demo_env (wfs_ns\<lparr>url := ''http://svc/wfs?map=a''\<rparr>) 10 20 4326
            = Inr (Some u)
          \<and> prefix ''http://svc/wfs?map=a&SERVICE=WFS'' u)"
  using query_string_joining [where r = wfs_ns and env = demo_env and x = 10 and y = 20
          and s = 4326]
        query_string_joining [where r = "wfs_ns\<lparr>url := ''http://svc/wfs?map=a''\<rparr>"
          and env = demo_env and x = 10 and y = 20 and s = 4326]
  by (auto simp add: wfs_ns_def split: sum.splits option.splits)

section \<open>Properties of the response parser\<close>


lemma demo_parse_wms:
  "parseString demo_env ''<v>7</v>'' = Inr [Element ''v'' [CharData ''7'']]"
  by (simp add: demo_env_def)





text \<open>
  C8, as the code has it. For a registry whose query type is neither WFS nor WMS (REST
  among them), \<open>parse_request_value\<close> reads neither the payload nor the extraction
  rule and returns \<open>None\<close>; and \<open>retrieve_context_value\<close> never gets as far as a
  payload: \<open>build_query_url\<close> gives no URL, the request raises, and the world
  (cache table and request log) is left as it was, so no geometry is produced.
\<close>

theorem parse_request_value_other_types:
  assumes "query_type r \<notin> {WFS, WMS}"
  shows "parse_request_value env r content = Inr None
       \<and> retrieve_context_value env w r x y s = (Inl MissingSchema, w)"
  using assms
  by (simp add: parse_request_value_def retrieve_context_value_def build_query_url_def)

theorem parse_request_value_other_types_witness:
  "query_type rest_demo \<notin> {WFS, WMS}
   \<and> parse_request_value demo_env rest_demo ''42'' = Inr None
   \<and> retrieve_context_value demo_env demo_world rest_demo 10 20 4326
       = (Inl MissingSchema, demo_world)"
proof -
  have q: "query_type rest_demo \<notin> {WFS, WMS}"
    by (simp add: rest_demo_def wfs_ns_def)
  from q parse_request_value_other_types [OF q, where env = demo_env and content = "''42''"
      and w = demo_world and x = 10 and y = 20 and s = 4326]
  show ?thesis by blast
qed

text \<open>
  C8 as stated fails: the rule \<open>(42)\<close> matches the payload \<open>42\<close> with first group
  \<open>42\<close>, and the parser returns \<open>None\<close>.
\<close>

theorem rest_rule_is_not_applied:
  "query_type rest_demo = REST \<and> result_regex rest_demo = ''(42)''
   \<and> parse_request_value demo_env rest_demo ''42'' = Inr None
   \<and> parse_request_value demo_env rest_demo ''42'' \<noteq> Inr (Some ''42'')"
  by (simp add: parse_request_value_def rest_demo_def wfs_ns_def)

section \<open>Effects of a fetch and invariants of the cache table\<close>

lemma create_cache_effect:
  assumes "create_cache env w r val geom u = (res, w')"
  shows "registries w' = registries w \<and> utcnow w' = utcnow w \<and> sent w' = sent w
       \<and> (case res of
            Inr (Some c) \<Rightarrow>
              pk c = next_pk w \<and> service_registry c = key r
              \<and> caches w' = caches w @ [c] \<and> next_pk w' = Suc (next_pk w)
              \<and> geometry c = (case geom of None \<Rightarrow> None
                                | Some g \<Rightarrow> if truthy env (shape g) then Some g else None)
          | _ \<Rightarrow> caches w' = caches w \<and> next_pk w' = next_pk w)"
  using assms by (auto simp add: create_cache_def Let_def split: option.splits)

text \<open>
  What \<open>retrieve_context_value\<close> does to the world: it never touches the registry
  table or the clock, and it adds at most one row, the entry it returns, under the
  next primary key.
\<close>

lemma retrieve_context_value_effect:
  assumes "retrieve_context_value env w r x y s = (res, w')"
  shows "registries w' = registries w \<and> utcnow w' = utcnow w
       \<and> (case res of
            Inr (Some c) \<Rightarrow>
              pk c = next_pk w \<and> service_registry c = key r
              \<and> caches w' = caches w @ [c] \<and> next_pk w' = Suc (next_pk w)
              \<and> (query_type r \<noteq> WMS \<longrightarrow> geometry c \<noteq> None)
          | _ \<Rightarrow> caches w' = caches w \<and> next_pk w' = next_pk w)"
proof (cases "query_type r = WMS")
  case True
  with assms show ?thesis
    by (auto simp add: retrieve_context_value_def Let_def
          split: sum.splits prod.splits option.splits dest!: create_cache_effect)
next
  case False
  with assms show ?thesis
    by (auto simp add: retrieve_context_value_def Let_def
          split: sum.splits option.splits if_splits dest!: create_cache_effect)
qed

lemma get_registry_Inr:
  "get_registry w k = Inr r \<Longrightarrow> r \<in> set (registries w) \<and> key r = k
     \<and> (\<forall>r'\<in>set (registries w). key r' = k \<longrightarrow> r' = r)"
proof -
  assume "get_registry w k = Inr r"
  then have f: "filter (\<lambda>r. key r = k) (registries w) = [r]"
    by (auto simp add: get_registry_def split: list.splits)
  then have "set (filter (\<lambda>r. key r = k) (registries w)) = {r}" by simp
  then show ?thesis by auto
qed

text \<open>Entries the scan passes over, and what a hit means.\<close>

lemma scan_caches_skip:
  "\<forall>c\<in>set pre. \<exists>g. geometry c = Some g \<and> \<not> contains env g p
   \<Longrightarrow> scan_caches env now p (pre @ rest) = scan_caches env now p rest"
  by (induction pre) auto

lemma scan_caches_Hit:
  "scan_caches env now p cs = Inr (Hit c) \<Longrightarrow> c \<in> set cs \<and> now < expired_time c"
  by (induction cs) (auto split: option.splits if_splits)

lemma scan_caches_Expired:
  "scan_caches env now p cs = Inr (Expired c) \<Longrightarrow> c \<in> set cs \<and> \<not> now < expired_time c"
  by (induction cs) (auto split: option.splits if_splits)

text \<open>Deleting by primary key removes exactly the one row.\<close>

lemma filter_pk_remove1:
  "distinct (map pk cs) \<Longrightarrow> e \<in> set cs \<Longrightarrow> filter (\<lambda>c. pk c \<noteq> pk e) cs = remove1 e cs"
proof (induction cs)
  case Nil
  then show ?case by simp
next
  case (Cons c cs)
  show ?case
  proof (cases "c = e")
    case True
    with Cons.prems have "pk e \<notin> pk ` set cs" by simp
    then have "\<forall>d\<in>set cs. pk d \<noteq> pk e" by (metis imageI)
    then have "filter (\<lambda>c. pk c \<noteq> pk e) cs = cs" by (simp add: filter_id_conv)
    with True show ?thesis by simp
  next
    case False
    with Cons.prems have "e \<in> set cs" and "pk c \<noteq> pk e" by auto
    with Cons False show ?thesis by simp
  qed
qed

text \<open>
  Both invariants hold for an empty cache table and are kept by \<open>retrieve_context\<close>,
  so they hold in every state the code reaches from one.
\<close>

lemma invariants_empty:
  "caches w = [] \<Longrightarrow> pk_invariant w \<and> geometry_invariant w"
  by (simp add: pk_invariant_def geometry_invariant_def)

lemma pk_invariant_delete:
  "pk_invariant w \<Longrightarrow> pk_invariant (w\<lparr>caches := filter P (caches w)\<rparr>)"
  by (auto simp add: pk_invariant_def distinct_map_filter)

lemma geometry_invariant_delete:
  "geometry_invariant w \<Longrightarrow> geometry_invariant (w\<lparr>caches := filter P (caches w)\<rparr>)"
  by (auto simp add: geometry_invariant_def)

lemma pk_invariant_fetch:
  assumes "pk_invariant w" and "retrieve_context_value env w r x y s = (res, w')"
  shows "pk_invariant w'"
proof (cases res)
  case (Inl e)
  with retrieve_context_value_effect [OF assms(2)] assms(1) show ?thesis
    by (simp add: pk_invariant_def)
next
  case (Inr oc)
  show ?thesis
  proof (cases oc)
    case None
    with Inr retrieve_context_value_effect [OF assms(2)] assms(1) show ?thesis
      by (simp add: pk_invariant_def)
  next
    case (Some c)
    with Inr retrieve_context_value_effect [OF assms(2)]
    have "pk c = next_pk w" "caches w' = caches w @ [c]" "next_pk w' = Suc (next_pk w)"
      by simp_all
    with assms(1) show ?thesis
      by (auto simp add: pk_invariant_def less_Suc_eq)
  qed
qed

lemma geometry_invariant_fetch:
  assumes "geometry_invariant w" and "get_registry w k = Inr r"
      and "retrieve_context_value env w r x y s = (res, w')"
  shows "geometry_invariant w'"
proof (cases res)
  case (Inl e)
  with retrieve_context_value_effect [OF assms(3)] assms(1) show ?thesis
    by (simp add: geometry_invariant_def)
next
  case (Inr oc)
  show ?thesis
  proof (cases oc)
    case None
    with Inr retrieve_context_value_effect [OF assms(3)] assms(1) show ?thesis
      by (simp add: geometry_invariant_def)
  next
    case (Some c)
    with Inr retrieve_context_value_effect [OF assms(3)]
    have c: "service_registry c = key r" "caches w' = caches w @ [c]"
        "query_type r \<noteq> WMS \<longrightarrow> geometry c \<noteq> None" "registries w' = registries w"
      by simp_all
    from get_registry_Inr [OF assms(2)]
    have u: "\<forall>r'\<in>set (registries w). key r' = key r \<longrightarrow> r' = r" by simp
    from assms(1) c u show ?thesis
      unfolding geometry_invariant_def by (metis Un_iff empty_iff empty_set insert_iff list.simps(15) set_append)
  qed
qed

lemma invariants_retrieve_context:
  assumes "pk_invariant w" and "geometry_invariant w"
      and "retrieve_context env w x y k s = (res, w')"
  shows "pk_invariant w' \<and> geometry_invariant w'"
proof -
  have fetch: "pk_invariant w' \<and> geometry_invariant w'"
    if "pk_invariant v" "geometry_invariant v" "get_registry v k = Inr r"
       "retrieve_context_value env v r x y s = (res, w')" for v r
    using pk_invariant_fetch [OF that(1,4)] geometry_invariant_fetch [OF that(2,3,4)]
    by simp
  show ?thesis
  proof (cases "make_point env x y s")
    case (Inl e)
    with assms show ?thesis by (simp add: retrieve_context_def)
  next
    case p: (Inr p)
    show ?thesis
    proof (cases "get_registry w k")
      case (Inl e)
      with p assms show ?thesis by (simp add: retrieve_context_def)
    next
      case r: (Inr r)
      show ?thesis
      proof (cases "scan_caches env (utcnow w) p
                      (filter (\<lambda>c. service_registry c = key r) (caches w))")
        case (Inl e)
        with p r assms show ?thesis by (simp add: retrieve_context_def)
      next
        case (Inr l)
        show ?thesis
        proof (cases l)
          case (Hit c)
          with Inr p r assms show ?thesis by (simp add: retrieve_context_def)
        next
          case (Expired c)
          let ?v = "w\<lparr>caches := filter (\<lambda>d. pk d \<noteq> pk c) (caches w)\<rparr>"
          from Expired Inr p r assms(3)
          have "retrieve_context_value env ?v r x y s = (res, w')"
            by (simp add: retrieve_context_def)
          moreover have "get_registry ?v k = Inr r"
            using r by (simp add: get_registry_def)
          moreover have "pk_invariant ?v"
            using assms(1) by (rule pk_invariant_delete)
          moreover have "geometry_invariant ?v"
            using assms(2) by (rule geometry_invariant_delete)
          ultimately show ?thesis using fetch by blast
        next
          case Miss
          with Inr p r assms(3)
          have "retrieve_context_value env w r x y s = (res, w')"
            by (simp add: retrieve_context_def)
          with assms(1,2) r show ?thesis using fetch by blast
        qed
      qed
    qed
  qed
qed

text \<open>
  Under the geometry invariant every entry of a registry that is not a WMS registry
  has a geometry, so an entry the scan passes over is one whose geometry does not
  contain the point.
\<close>

lemma entries_before_skipped:
  assumes "geometry_invariant w" and "get_registry w k = Inr r" and "query_type r \<noteq> WMS"
      and "filter (\<lambda>c. service_registry c = key r) (caches w) = pre @ rest"
      and "\<forall>c\<in>set pre. \<forall>g. geometry c = Some g \<longrightarrow> \<not> contains env g p"
  shows "\<forall>c\<in>set pre. \<exists>g. geometry c = Some g \<and> \<not> contains env g p"
proof
  fix c assume c: "c \<in> set pre"
  with assms(4) have "c \<in> set (filter (\<lambda>c. service_registry c = key r) (caches w))" by simp
  then have "c \<in> set (caches w)" "service_registry c = key r" by simp_all
  moreover from get_registry_Inr [OF assms(2)] have "r \<in> set (registries w)" by simp
  ultimately have "geometry c \<noteq> None"
    using assms(1,3) unfolding geometry_invariant_def by metis
  with assms(5) c show "\<exists>g. geometry c = Some g \<and> \<not> contains env g p" by auto
qed

text \<open>
  The request of a fetch. For a registry that is not a WMS registry,
  \<open>retrieve_context_value\<close> sends exactly one request, for the URL
  \<open>build_query_url\<close> gives, whatever the upstream answers; without a URL it raises
  and sends nothing.
\<close>

lemma fetch_sends_request:
  assumes "query_type r \<noteq> WMS" and "build_query_url env r x y s = Inr (Some u)"
  shows "sent (snd (retrieve_context_value env w r x y s)) = sent w @ [HttpGet u]"
proof -
  obtain res w' where f: "retrieve_context_value env w r x y s = (res, w')"
    by (cases "retrieve_context_value env w r x y s")
  with assms have "sent w' = sent w @ [HttpGet u]"
    by (auto simp add: retrieve_context_value_def Let_def
          split: sum.splits option.splits if_splits dest!: create_cache_effect)
  with f show ?thesis by simp
qed

lemma fetch_without_url:
  assumes "query_type r \<noteq> WMS" and "build_query_url env r x y s = Inl err"
  shows "retrieve_context_value env w r x y s = (Inl err, w)"
  using assms by (simp add: retrieve_context_value_def)

lemma build_query_url_Inl:
  assumes "query_type r = WFS" and "build_query_url env r x y s = Inl err"
  shows "Some s \<noteq> srid r \<and> convert_coordinate env x y s (srid r) = Inl err"
  using assms
  by (auto simp add: build_query_url_def Let_def split: sum.splits prod.splits if_splits)

lemma build_query_url_Some:
  "query_type r = WFS \<Longrightarrow> build_query_url env r x y s \<noteq> Inr None"
  by (auto simp add: build_query_url_def Let_def split: sum.splits prod.splits if_splits)

text \<open>
  A stored entry carries a geometry only if the registry is a WFS registry, so the
  third invariant too holds for an empty cache table and is kept by
  \<open>retrieve_context\<close>.
\<close>

lemma stored_geometry_is_wfs:
  assumes "retrieve_context_value env w r x y s = (Inr (Some c), w')"
      and "geometry c \<noteq> None"
  shows "query_type r = WFS"
proof (cases "query_type r = WMS")
  case True
  with assms show ?thesis
    by (auto simp add: retrieve_context_value_def Let_def
          split: sum.splits prod.splits option.splits dest!: create_cache_effect)
next
  case False
  with assms(1) have "build_query_url env r x y s \<noteq> Inr None"
      and "\<forall>e. build_query_url env r x y s \<noteq> Inl e"
    by (auto simp add: retrieve_context_value_def)
  then show ?thesis
    by (cases "query_type r = WFS") (simp_all add: build_query_url_def)
qed

lemma wfs_invariant_empty: "caches w = [] \<Longrightarrow> wfs_invariant w"
  by (simp add: wfs_invariant_def)

lemma wfs_invariant_delete:
  "wfs_invariant w \<Longrightarrow> wfs_invariant (w\<lparr>caches := filter P (caches w)\<rparr>)"
  by (auto simp add: wfs_invariant_def)

lemma wfs_invariant_fetch:
  assumes "wfs_invariant w" and "get_registry w k = Inr r"
      and "retrieve_context_value env w r x y s = (res, w')"
  shows "wfs_invariant w'"
proof (cases res)
  case (Inl e)
  with retrieve_context_value_effect [OF assms(3)] assms(1) show ?thesis
    by (simp add: wfs_invariant_def)
next
  case (Inr oc)
  show ?thesis
  proof (cases oc)
    case None
    with Inr retrieve_context_value_effect [OF assms(3)] assms(1) show ?thesis
      by (simp add: wfs_invariant_def)
  next
    case (Some c)
    with Inr retrieve_context_value_effect [OF assms(3)]
    have c: "service_registry c = key r" "caches w' = caches w @ [c]"
        "registries w' = registries w"
      by simp_all
    from Some Inr assms(3)
    have f: "retrieve_context_value env w r x y s = (Inr (Some c), w')" by simp
    have g: "geometry c \<noteq> None \<longrightarrow> query_type r = WFS"
    proof
      assume "geometry c \<noteq> None"
      with f show "query_type r = WFS" by (rule stored_geometry_is_wfs)
    qed
    from get_registry_Inr [OF assms(2)]
    have u: "\<forall>r'\<in>set (registries w). key r' = key r \<longrightarrow> r' = r" by simp
    show ?thesis
      unfolding wfs_invariant_def
    proof (intro ballI impI)
      fix d r'
      assume d: "d \<in> set (caches w')" and r': "r' \<in> set (registries w')"
        and m: "key r' = service_registry d \<and> geometry d \<noteq> None"
      show "query_type r' = WFS"
      proof (cases "d = c")
        case True
        with m c(1) c(3) r' u have "r' = r" by auto
        with True m g show ?thesis by simp
      next
        case False
        with d c(2) have "d \<in> set (caches w)" by simp
        with assms(1) r' c(3) m show ?thesis
          unfolding wfs_invariant_def by auto
      qed
    qed
  qed
qed

lemma wfs_invariant_retrieve_context:
  assumes "wfs_invariant w" and "retrieve_context env w x y k s = (res, w')"
  shows "wfs_invariant w'"
proof (cases "make_point env x y s")
  case (Inl e)
  with assms show ?thesis by (simp add: retrieve_context_def)
next
  case p: (Inr p)
  show ?thesis
  proof (cases "get_registry w k")
    case (Inl e)
    with p assms show ?thesis by (simp add: retrieve_context_def)
  next
    case r: (Inr r)
    show ?thesis
    proof (cases "scan_caches env (utcnow w) p
                    (filter (\<lambda>c. service_registry c = key r) (caches w))")
      case (Inl e)
      with p r assms show ?thesis by (simp add: retrieve_context_def)
    next
      case (Inr l)
      show ?thesis
      proof (cases l)
        case (Hit c)
        with Inr p r assms show ?thesis by (simp add: retrieve_context_def)
      next
        case (Expired c)
        let ?v = "w\<lparr>caches := filter (\<lambda>d. pk d \<noteq> pk c) (caches w)\<rparr>"
        from Expired Inr p r assms(2)
        have f: "retrieve_context_value env ?v r x y s = (res, w')"
          by (simp add: retrieve_context_def)
        have g: "get_registry ?v k = Inr r"
          using r by (simp add: get_registry_def)
        have "wfs_invariant ?v"
          using assms(1) by (rule wfs_invariant_delete)
        then show ?thesis using g f by (rule wfs_invariant_fetch)
      next
        case Miss
        with Inr p r assms(2)
        have "retrieve_context_value env w r x y s = (res, w')"
          by (simp add: retrieve_context_def)
        with assms(1) r show ?thesis by (rule wfs_invariant_fetch)
      qed
    qed
  qed
qed

section \<open>Properties of the cache lookup\<close>

lemma demo_make_point: "make_point demo_env 10 20 4326 = Inr demo_point"
  by (simp add: make_point_def demo_point_def)

lemma demo_registries:
  "get_registry demo_world ''wfs_ns'' = Inr wfs_ns"
  "get_registry demo_world ''wms'' = Inr wms_demo"
  by (simp_all add: get_registry_def demo_world_def wfs_ns_def wfs_plain_def wfs_down_def
        wfs_nogeom_def wms_demo_def rest_demo_def)

lemma get_registry_frame:
  "get_registry (w\<lparr>caches := cs, next_pk := n, sent := rs\<rparr>) k = get_registry w k"
  "get_registry (w\<lparr>caches := cs, next_pk := n\<rparr>) k = get_registry w k"
  by (simp_all add: get_registry_def)

lemma demo_parse_wfs:
  "parse_request_value demo_env wfs_ns ''<f><v>42</v><box/></f>'' = Inr (Some ''42'')"
  by (simp add: parse_request_value_def wfs_ns_def demo_env_def)

lemma demo_fetch_wfs_ns:
  assumes "utcnow w = 1000"
  shows "retrieve_context_value demo_env w wfs_ns 10 20 4326 =
     (Inr (Some (fresh_entry (next_pk w))),
      w\<lparr>sent := sent w @ [HttpGet demo_url],
        caches := caches w @ [fresh_entry (next_pk w)],
        next_pk := Suc (next_pk w)\<rparr>)"
proof -
  have u: "build_query_url demo_env wfs_ns 10 20 4326 = Inr (Some demo_url)"
    using demo_url_ns by (simp add: demo_url_def)
  have q: "query_type wfs_ns \<noteq> WMS" "layer_typename wfs_ns = ''ns:layer''"
      "time_to_live wfs_ns = Some 604800" "srid wfs_ns = Some 4326" "key wfs_ns = ''wfs_ns''"
    by (simp_all add: wfs_ns_def)
  have g: "requests_get demo_env demo_url = Inr ''<f><v>42</v><box/></f>''"
    by (simp add: demo_env_def demo_url_def)
  have p: "parse_gml_geometry demo_env ''<f><v>42</v><box/></f>'' ws
             = Inr (Some \<lparr>shape = (0, 0, 100, 100), geos_srid = None\<rparr>)" for ws
    by (simp add: demo_env_def)
  have t: "truthy demo_env b" for b
    by (simp add: demo_env_def)
  have n: "demo_url \<noteq> []"
    by (simp add: demo_url_def)
  show ?thesis
    by (simp add: retrieve_context_value_def u q g p t n demo_parse_wfs create_cache_def
          fresh_entry_def assms Let_def)
qed

text \<open>
  C1, as the code has it. In a world that satisfies the geometry invariant, for a
  registry that is not a WMS registry: when the first entry of the registry, in scan
  order, whose geometry contains the query point has not expired, \<open>retrieve_context\<close>
  returns that entry and leaves the world as it was: nothing is deleted, nothing
  stored, no request sent. When only one entry of the registry contains the point,
  that entry is the first.
\<close>

theorem cache_hit_returns_first_containing_entry:
  assumes inv: "geometry_invariant w"
      and reg: "get_registry w k = Inr r"
      and nowms: "query_type r \<noteq> WMS"
      and pt: "make_point env x y s = Inr p"
      and entries: "filter (\<lambda>c. service_registry c = key r) (caches w) = pre @ e # post"
      and first: "\<forall>c\<in>set pre. \<forall>g. geometry c = Some g \<longrightarrow> \<not> contains env g p"
      and inside: "geometry e = Some g" "contains env g p"
      and live: "utcnow w < expired_time e"
  shows "retrieve_context env w x y k s = (Inr (Some e), w)"
proof -
  from entries_before_skipped [OF inv reg nowms entries first]
  have "scan_caches env (utcnow w) p (pre @ e # post)
          = scan_caches env (utcnow w) p (e # post)"
    by (rule scan_caches_skip)
  with inside live
  have "scan_caches env (utcnow w) p (pre @ e # post) = Inr (Hit e)" by simp
  with reg pt entries show ?thesis by (simp add: retrieve_context_def)
qed

lemma demo_invariants:
  "pk_invariant hit_world" "geometry_invariant hit_world"
  "pk_invariant overlap_world" "geometry_invariant overlap_world"
  by (simp_all add: pk_invariant_def geometry_invariant_def hit_world_def overlap_world_def
        demo_world_def live_entry_def expired_entry_def)

lemma demo_entries:
  "filter (\<lambda>c. service_registry c = key wfs_ns) (caches hit_world)
     = [] @ live_entry # [expired_entry]"
  "filter (\<lambda>c. service_registry c = key wfs_ns) (caches overlap_world)
     = [] @ expired_entry # [live_entry]"
  by (simp_all add: hit_world_def overlap_world_def demo_world_def live_entry_def
        expired_entry_def wfs_ns_def)

lemma demo_contains:
  "contains demo_env \<lparr>shape = (0, 0, 50, 50), geos_srid = Some 4326\<rparr> demo_point"
  "contains demo_env \<lparr>shape = (0, 0, 100, 100), geos_srid = Some 4326\<rparr> demo_point"
  by (simp_all add: demo_env_def demo_point_def)

theorem cache_hit_returns_first_containing_entry_witness:
  "geometry_invariant hit_world
   \<and> get_registry hit_world ''wfs_ns'' = Inr wfs_ns
   \<and> query_type wfs_ns \<noteq> WMS
   \<and> make_point demo_env 10 20 4326 = Inr demo_point
   \<and> filter (\<lambda>c. service_registry c = key wfs_ns) (caches hit_world)
        = [] @ live_entry # [expired_entry]
   \<and> geometry live_entry = Some \<lparr>shape = (0, 0, 50, 50), geos_srid = Some 4326\<rparr>
   \<and> contains demo_env \<lparr>shape = (0, 0, 50, 50), geos_srid = Some 4326\<rparr> demo_point
   \<and> utcnow hit_world < expired_time live_entry
   \<and> retrieve_context demo_env hit_world 10 20 ''wfs_ns'' 4326 = (Inr (Some live_entry), hit_world)"
proof -
  have reg: "get_registry hit_world ''wfs_ns'' = Inr wfs_ns"
    using demo_registries(1) by (simp add: hit_world_def get_registry_frame)
  have nowms: "query_type wfs_ns \<noteq> WMS"
    by (simp add: wfs_ns_def)
  have first: "\<forall>c\<in>set []. \<forall>g. geometry c = Some g \<longrightarrow> \<not> contains demo_env g demo_point"
    by simp
  have geo: "geometry live_entry = Some \<lparr>shape = (0, 0, 50, 50), geos_srid = Some 4326\<rparr>"
    by (simp add: live_entry_def)
  have live: "utcnow hit_world < expired_time live_entry"
    by (simp add: hit_world_def demo_world_def live_entry_def)
  from cache_hit_returns_first_containing_entry
    [OF demo_invariants(2) reg nowms demo_make_point demo_entries(1) first geo demo_contains(1) live]
  have "retrieve_context demo_env hit_world 10 20 ''wfs_ns'' 4326
          = (Inr (Some live_entry), hit_world)" .
  with demo_invariants(2) reg nowms demo_make_point demo_entries(1) geo demo_contains(1) live
  show ?thesis by simp
qed

lemma overlap_refetch:
  "retrieve_context demo_env overlap_world 10 20 ''wfs_ns'' 4326 =
     (Inr (Some (fresh_entry 3)),
      overlap_world\<lparr>caches := [live_entry, fresh_entry 3], next_pk := 4,
        sent := [HttpGet demo_url]\<rparr>)"
proof -
  have reg: "get_registry overlap_world ''wfs_ns'' = Inr wfs_ns"
    using demo_registries(1) by (simp add: overlap_world_def get_registry_frame)
  have scan: "scan_caches demo_env (utcnow overlap_world) demo_point
                (filter (\<lambda>c. service_registry c = key wfs_ns) (caches overlap_world))
              = Inr (Expired expired_entry)"
    unfolding demo_entries(2)
    using demo_contains(2)
    by (simp add: expired_entry_def overlap_world_def demo_world_def)
  have del: "filter (\<lambda>c. pk c \<noteq> pk expired_entry) (caches overlap_world) = [live_entry]"
    by (simp add: overlap_world_def expired_entry_def live_entry_def)
  have "retrieve_context demo_env overlap_world 10 20 ''wfs_ns'' 4326 =
          retrieve_context_value demo_env (overlap_world\<lparr>caches := [live_entry]\<rparr>)
            wfs_ns 10 20 4326"
    by (simp add: retrieve_context_def demo_make_point reg scan del)
  also have "\<dots> = (Inr (Some (fresh_entry 3)),
      overlap_world\<lparr>caches := [live_entry, fresh_entry 3], next_pk := 4,
        sent := [HttpGet demo_url]\<rparr>)"
    by (subst demo_fetch_wfs_ns) (simp_all add: overlap_world_def demo_world_def)
  finally show ?thesis .
qed

text \<open>
  C1 as stated fails where two entries of a registry overlap: the point lies in the
  geometry of a stored entry that has not expired, but an expired entry that contains
  it too is scanned first. The code deletes the expired entry, stops the scan, and
  fetches: a request is sent and the entry returned is the newly stored one.
\<close>

theorem live_entry_behind_expired_one_is_not_returned:
  "pk_invariant overlap_world \<and> geometry_invariant overlap_world
   \<and> live_entry \<in> set (caches overlap_world)
   \<and> service_registry live_entry = key wfs_ns
   \<and> geometry live_entry = Some \<lparr>shape = (0, 0, 50, 50), geos_srid = Some 4326\<rparr>
   \<and> contains demo_env \<lparr>shape = (0, 0, 50, 50), geos_srid = Some 4326\<rparr> demo_point
   \<and> utcnow overlap_world < expired_time live_entry
   \<and> fst (retrieve_context demo_env overlap_world 10 20 ''wfs_ns'' 4326)
        \<noteq> Inr (Some live_entry)
   \<and> sent (snd (retrieve_context demo_env overlap_world 10 20 ''wfs_ns'' 4326))
        = [HttpGet demo_url]"
proof -
  have "fresh_entry 3 \<noteq> live_entry"
    by (simp add: fresh_entry_def live_entry_def)
  moreover have "live_entry \<in> set (caches overlap_world)"
      "service_registry live_entry = key wfs_ns"
      "geometry live_entry = Some \<lparr>shape = (0, 0, 50, 50), geos_srid = Some 4326\<rparr>"
      "utcnow overlap_world < expired_time live_entry"
    by (simp_all add: overlap_world_def demo_world_def live_entry_def wfs_ns_def)
  ultimately show ?thesis
    using demo_invariants(3,4) demo_contains(1) by (simp add: overlap_refetch)
qed

lemma demo_wfs_invariant: "wfs_invariant overlap_world"
  by (simp add: wfs_invariant_def overlap_world_def demo_world_def live_entry_def
      expired_entry_def wfs_ns_def wfs_plain_def wfs_down_def wfs_nogeom_def wms_demo_def
      rest_demo_def)

text \<open>
  C2. In a world that satisfies the three invariants (each holds for an empty cache
  table and is kept by \<open>retrieve_context\<close>): when the entry of the requested registry
  whose geometry contains the query point (the first such entry in scan order) has
  expired, the scan reports it as expired, not as a hit, and goes no further: whatever
  entries follow it play no part. \<open>retrieve_context\<close> then is
  \<open>retrieve_context_value\<close> run on the cache table with exactly that entry removed.
  It does not return the expired entry, the entry is not in the cache table
  afterwards, and every other entry still is. The fetch is a real one: the registry is
  a WFS registry, and the request for the URL that \<open>build_query_url\<close> gives is
  sent, once, whatever the upstream answers. The one way out is the coordinate
  conversion of \<open>build_query_url\<close> raising: then that error is the outcome, with
  the entry deleted all the same.
\<close>

theorem expired_entry_is_deleted_and_refetched:
  assumes pks: "pk_invariant w"
      and inv: "geometry_invariant w"
      and src: "wfs_invariant w"
      and reg: "get_registry w k = Inr r"
      and pt: "make_point env x y s = Inr p"
      and entries: "filter (\<lambda>c. service_registry c = key r) (caches w) = pre @ e # post"
      and first: "\<forall>c\<in>set pre. \<forall>g. geometry c = Some g \<longrightarrow> \<not> contains env g p"
      and inside: "geometry e = Some g" "contains env g p"
      and expired: "expired_time e \<le> utcnow w"
  shows "scan_caches env (utcnow w) p (filter (\<lambda>c. service_registry c = key r) (caches w))
           = Inr (Expired e)
       \<and> retrieve_context env w x y k s
           = retrieve_context_value env (w\<lparr>caches := remove1 e (caches w)\<rparr>) r x y s
       \<and> fst (retrieve_context env w x y k s) \<noteq> Inr (Some e)
       \<and> e \<notin> set (caches (snd (retrieve_context env w x y k s)))
       \<and> set (caches w) - {e} \<subseteq> set (caches (snd (retrieve_context env w x y k s)))
       \<and> query_type r = WFS
       \<and> (case build_query_url env r x y s of
            Inl err \<Rightarrow>
              Some s \<noteq> srid r \<and> convert_coordinate env x y s (srid r) = Inl err
              \<and> retrieve_context env w x y k s
                  = (Inl err, w\<lparr>caches := remove1 e (caches w)\<rparr>)
          | Inr None \<Rightarrow> False
          | Inr (Some u) \<Rightarrow>
              sent (snd (retrieve_context env w x y k s)) = sent w @ [HttpGet u])"
proof -
  let ?v = "w\<lparr>caches := remove1 e (caches w)\<rparr>"
  have "e \<in> set (filter (\<lambda>c. service_registry c = key r) (caches w))"
    by (simp add: entries)
  then have mem: "e \<in> set (caches w)" and own: "service_registry e = key r" by simp_all
  from get_registry_Inr [OF reg] have "r \<in> set (registries w)" by simp
  with src mem own inside(1) have wfs: "query_type r = WFS"
    unfolding wfs_invariant_def by auto
  then have nowms: "query_type r \<noteq> WMS" by simp
  from entries_before_skipped [OF inv reg nowms entries first]
  have "scan_caches env (utcnow w) p (pre @ e # post)
          = scan_caches env (utcnow w) p (e # post)"
    by (rule scan_caches_skip)
  with inside expired
  have scan: "scan_caches env (utcnow w) p
                (filter (\<lambda>c. service_registry c = key r) (caches w)) = Inr (Expired e)"
    by (simp add: entries)
  from pks have dist: "distinct (map pk (caches w))" and below: "pk e < next_pk w"
    using mem by (simp_all add: pk_invariant_def)
  from dist have dist': "distinct (caches w)" by (simp add: distinct_map)
  have del: "filter (\<lambda>c. pk c \<noteq> pk e) (caches w) = remove1 e (caches w)"
    using dist mem by (rule filter_pk_remove1)
  have run: "retrieve_context env w x y k s = retrieve_context_value env ?v r x y s"
    by (simp add: retrieve_context_def pt reg scan del)
  obtain res w' where fetch: "retrieve_context_value env ?v r x y s = (res, w')"
    by (cases "retrieve_context_value env ?v r x y s")
  have gone: "set (caches ?v) = set (caches w) - {e}"
    using dist' by simp
  have kept: "res \<noteq> Inr (Some e) \<and> e \<notin> set (caches w')
                \<and> set (caches w) - {e} \<subseteq> set (caches w')"
  proof (cases res)
    case (Inl err)
    with retrieve_context_value_effect [OF fetch] gone show ?thesis by simp
  next
    case (Inr oc)
    show ?thesis
    proof (cases oc)
      case None
      with Inr retrieve_context_value_effect [OF fetch] gone show ?thesis by simp
    next
      case (Some c)
      with Inr retrieve_context_value_effect [OF fetch]
      have c: "pk c = next_pk w" "caches w' = remove1 e (caches w) @ [c]" by simp_all
      from c(1) below have "c \<noteq> e" by auto
      with c(2) gone Inr Some show ?thesis by auto
    qed
  qed
  have request: "case build_query_url env r x y s of
            Inl err \<Rightarrow>
              Some s \<noteq> srid r \<and> convert_coordinate env x y s (srid r) = Inl err
              \<and> retrieve_context env w x y k s = (Inl err, ?v)
          | Inr None \<Rightarrow> False
          | Inr (Some u) \<Rightarrow>
              sent (snd (retrieve_context env w x y k s)) = sent w @ [HttpGet u]"
  proof (cases "build_query_url env r x y s")
    case (Inl err)
    with build_query_url_Inl [OF wfs Inl] fetch_without_url [OF nowms Inl, of ?v] run
    show ?thesis by simp
  next
    case (Inr ou)
    show ?thesis
    proof (cases ou)
      case None
      with Inr build_query_url_Some [OF wfs, of env x y s] show ?thesis by simp
    next
      case (Some u)
      with Inr fetch_sends_request [OF nowms, of env x y s u ?v] run
      show ?thesis by simp
    qed
  qed
  from scan run fetch kept wfs request show ?thesis by simp
qed

theorem expired_entry_is_deleted_and_refetched_witness:
  "pk_invariant overlap_world \<and> geometry_invariant overlap_world
   \<and> wfs_invariant overlap_world
   \<and> get_registry overlap_world ''wfs_ns'' = Inr wfs_ns
   \<and> make_point demo_env 10 20 4326 = Inr demo_point
   \<and> filter (\<lambda>c. service_registry c = key wfs_ns) (caches overlap_world)
        = [] @ expired_entry # [live_entry]
   \<and> geometry expired_entry = Some \<lparr>shape = (0, 0, 100, 100), geos_srid = Some 4326\<rparr>
   \<and> contains demo_env \<lparr>shape = (0, 0, 100, 100), geos_srid = Some 4326\<rparr> demo_point
   \<and> expired_time expired_entry \<le> utcnow overlap_world
   \<and> retrieve_context demo_env overlap_world 10 20 ''wfs_ns'' 4326
        = retrieve_context_value demo_env
            (overlap_world\<lparr>caches := remove1 expired_entry (caches overlap_world)\<rparr>)
            wfs_ns 10 20 4326
   \<and> fst (retrieve_context demo_env overlap_world 10 20 ''wfs_ns'' 4326)
        \<noteq> Inr (Some expired_entry)
   \<and> expired_entry
        \<notin> set (caches (snd (retrieve_context demo_env overlap_world 10 20 ''wfs_ns'' 4326)))
   \<and> build_query_url demo_env wfs_ns 10 20 4326 = Inr (Some demo_url)
   \<and> sent overlap_world = []
   \<and> sent (snd (retrieve_context demo_env overlap_world 10 20 ''wfs_ns'' 4326))
        = sent overlap_world @ [HttpGet demo_url]"
proof -
  have reg: "get_registry overlap_world ''wfs_ns'' = Inr wfs_ns"
    using demo_registries(1) by (simp add: overlap_world_def get_registry_frame)
  have first: "\<forall>c\<in>set []. \<forall>g. geometry c = Some g \<longrightarrow> \<not> contains demo_env g demo_point"
    by simp
  have geo: "geometry expired_entry
               = Some \<lparr>shape = (0, 0, 100, 100), geos_srid = Some 4326\<rparr>"
    by (simp add: expired_entry_def)
  have old: "expired_time expired_entry \<le> utcnow overlap_world"
    by (simp add: overlap_world_def demo_world_def expired_entry_def)
  have built: "build_query_url demo_env wfs_ns 10 20 4326 = Inr (Some demo_url)"
    using demo_url_ns by (simp add: demo_url_def)
  have quiet: "sent overlap_world = []"
    by (simp add: overlap_world_def demo_world_def)
  note all = expired_entry_is_deleted_and_refetched
    [OF demo_invariants(3,4) demo_wfs_invariant reg demo_make_point demo_entries(2) first geo
      demo_contains(2) old]
  from all
  have 1: "retrieve_context demo_env overlap_world 10 20 ''wfs_ns'' 4326
        = retrieve_context_value demo_env
            (overlap_world\<lparr>caches := remove1 expired_entry (caches overlap_world)\<rparr>)
            wfs_ns 10 20 4326
   \<and> fst (retrieve_context demo_env overlap_world 10 20 ''wfs_ns'' 4326)
        \<noteq> Inr (Some expired_entry)
   \<and> expired_entry
        \<notin> set (caches (snd (retrieve_context demo_env overlap_world 10 20 ''wfs_ns'' 4326)))"
    by blast
  note request = all [THEN conjunct2, THEN conjunct2, THEN conjunct2, THEN conjunct2,
      THEN conjunct2, THEN conjunct2]
  from request built
  have 2: "sent (snd (retrieve_context demo_env overlap_world 10 20 ''wfs_ns'' 4326))
             = sent overlap_world @ [HttpGet demo_url]"
    by simp
  from demo_invariants(3,4) demo_wfs_invariant reg demo_make_point demo_entries(2) geo
    demo_contains(2) old 1 built quiet 2
  show ?thesis by blast
qed

text \<open>
  An entry without a geometry that the scan reaches makes \<open>retrieve_context\<close> raise:
  \<^verbatim>\<open>cache.geometry.contains(point)\<close> is called on \<^verbatim>\<open>None\<close>.
\<close>

lemma entry_without_geometry_raises:
  assumes "get_registry w k = Inr r" and "make_point env x y s = Inr p"
      and "filter (\<lambda>c. service_registry c = key r) (caches w) = pre @ e # post"
      and "\<forall>c\<in>set pre. \<exists>g. geometry c = Some g \<and> \<not> contains env g p"
      and "geometry e = None"
  shows "retrieve_context env w x y k s = (Inl AttributeError, w)"
proof -
  from assms(4)
  have "scan_caches env (utcnow w) p (pre @ e # post)
          = scan_caches env (utcnow w) p (e # post)"
    by (rule scan_caches_skip)
  with assms(5) have "scan_caches env (utcnow w) p (pre @ e # post) = Inl AttributeError"
    by simp
  with assms(1,2,3) show ?thesis by (simp add: retrieve_context_def)
qed

lemma demo_fetch_wms:
  "retrieve_context_value demo_env demo_world wms_demo 10 20 4326
     = (Inr (Some wms_entry), wms_world)"
proof -
  have q: "query_type wms_demo = WMS" "url wms_demo = ''http://svc/wms''"
      "service_version wms_demo = ''2.0.0''" "layer_typename wms_demo = ''ns:layer''"
      "time_to_live wms_demo = Some 604800" "key wms_demo = ''wms''"
    by (simp_all add: wms_demo_def wfs_ns_def)
  have b: "get_bbox demo_env 10 20 = [9, 19, 11, 21]"
    by (simp add: demo_env_def)
  have g: "wms_getfeatureinfo demo_env u ver layer bbox s
             = Inr (''<v>7</v>'', Some (u @ ''?REQUEST=GetFeatureInfo''))" for u ver layer bbox s
    by (simp add: demo_env_def)
  have v: "parse_request_value demo_env wms_demo ''<v>7</v>'' = Inr (Some ''7'')"
    by (simp add: parse_request_value_def q wms_demo_def wfs_ns_def demo_parse_wms)
  show ?thesis
    by (simp add: retrieve_context_value_def q b g v create_cache_def Let_def
          wms_entry_def wms_world_def demo_world_def)
qed

text \<open>
  C4, on the code. A WMS resolution in \<open>demo_world\<close>, whose cache table is empty,
  stores an entry without geometry. The next lookup for the same registry and the
  same point does not return the entry as a hit, and it does not complete either: the
  scan raises on the entry, before any request is sent.
\<close>

theorem wms_entry_breaks_the_next_lookup:
  "retrieve_context demo_env demo_world 10 20 ''wms'' 4326 = (Inr (Some wms_entry), wms_world)
   \<and> geometry wms_entry = None
   \<and> retrieve_context demo_env wms_world 10 20 ''wms'' 4326 = (Inl AttributeError, wms_world)"
proof -
  have reg: "get_registry wms_world ''wms'' = Inr wms_demo"
    using demo_registries(2) by (simp add: wms_world_def get_registry_frame)
  have empty: "caches demo_world = []"
    by (simp add: demo_world_def)
  have 1: "retrieve_context demo_env demo_world 10 20 ''wms'' 4326
             = (Inr (Some wms_entry), wms_world)"
    by (simp add: retrieve_context_def demo_make_point demo_registries(2) demo_fetch_wms
          empty)
  have 2: "geometry wms_entry = None"
    by (simp add: wms_entry_def)
  have "filter (\<lambda>c. service_registry c = key wms_demo) (caches wms_world) = [wms_entry]"
    by (simp add: wms_world_def wms_entry_def wms_demo_def)
  with 2 have 3: "retrieve_context demo_env wms_world 10 20 ''wms'' 4326
                    = (Inl AttributeError, wms_world)"
    by (simp add: retrieve_context_def demo_make_point reg)
  from 1 2 3 show ?thesis by simp
qed

section \<open>Properties of a WFS fetch\<close>

lemma demo_url_nogeom:
  "build_query_url demo_env wfs_nogeom 10 20 4326 = Inr (Some nogeom_url)"
  by (simp add: build_query_url_def urlencode_wfs Let_def wfs_nogeom_def wfs_ns_def
      demo_bbox_string quote_plus_ns_layer quote_plus_version nogeom_url_def)

lemma demo_url_down:
  "build_query_url demo_env wfs_down 10 20 4326 = Inr (Some down_url)"
  by (simp add: build_query_url_def urlencode_wfs Let_def wfs_down_def wfs_ns_def
      demo_bbox_string quote_plus_ns_layer quote_plus_version down_url_def)

lemma demo_nogeom_payload:
  "requests_get demo_env nogeom_url = Inr ''<f><v>42</v></f>''"
  "parse_gml_geometry demo_env ''<f><v>42</v></f>'' ws = Inr None"
  "parse_request_value demo_env wfs_nogeom ''<f><v>42</v></f>'' = Inr (Some ''42'')"
  by (simp_all add: demo_env_def nogeom_url_def parse_request_value_def wfs_nogeom_def
        wfs_ns_def)

text \<open>
  C6, as the code has it. For a WFS registry whose URL is built and fetched and whose
  payload the GML parser accepts: when the parser finds no geometry (or an empty
  one), \<open>retrieve_context_value\<close> returns \<open>None\<close>: no value is extracted or returned
  and nothing is stored, the only effect being the request sent. When a geometry is
  found, the geometry of the stored entry is that geometry, with the registry's SRID
  assigned exactly when the parsed geometry carries none.
\<close>

theorem wfs_without_geometry_returns_none:
  assumes wfs: "query_type r = WFS"
      and built: "build_query_url env r x y s = Inr (Some u)"
      and body: "requests_get env u = Inr content"
      and gml: "parse_gml_geometry env content (workspace (layer_typename r)) = Inr geom"
  shows "((geom = None \<or> (\<exists>g. geom = Some g \<and> \<not> truthy env (shape g)))
            \<longrightarrow> retrieve_context_value env w r x y s
                  = (Inr None, w\<lparr>sent := sent w @ [HttpGet u]\<rparr>))
       \<and> (\<forall>g c w'. geom = Some g
              \<and> retrieve_context_value env w r x y s = (Inr (Some c), w')
            \<longrightarrow> geometry c =
                  Some (if geos_srid g = None \<or> geos_srid g = Some 0
                        then g\<lparr>geos_srid := srid r\<rparr> else g))"
proof (intro conjI impI allI)
  assume "geom = None \<or> (\<exists>g. geom = Some g \<and> \<not> truthy env (shape g))"
  with wfs built body gml
  show "retrieve_context_value env w r x y s = (Inr None, w\<lparr>sent := sent w @ [HttpGet u]\<rparr>)"
    by (auto simp add: retrieve_context_value_def Let_def)
next
  fix g c w'
  assume a: "geom = Some g \<and> retrieve_context_value env w r x y s = (Inr (Some c), w')"
  let ?g = "if geos_srid g = None \<or> geos_srid g = Some 0 then g\<lparr>geos_srid := srid r\<rparr> else g"
  have shape: "shape ?g = shape g" by simp
  from a wfs built body gml
  have t: "truthy env (shape g)"
    by (auto simp add: retrieve_context_value_def Let_def split: if_splits)
  from a wfs built body gml t
  obtain val where "create_cache env (w\<lparr>sent := sent w @ [HttpGet u]\<rparr>) r val (Some ?g)
                      (Some u) = (Inr (Some c), w')"
    by (auto simp add: retrieve_context_value_def Let_def split: sum.splits if_splits)
  from create_cache_effect [OF this] t shape
  show "geometry c = Some ?g" by (simp split: if_splits)
qed

lemma demo_wfs_payload:
  "requests_get demo_env demo_url = Inr ''<f><v>42</v><box/></f>''"
  "parse_gml_geometry demo_env ''<f><v>42</v><box/></f>'' ws
     = Inr (Some \<lparr>shape = (0, 0, 100, 100), geos_srid = None\<rparr>)"
  by (simp_all add: demo_env_def demo_url_def)

lemma demo_first_fetch:
  "retrieve_context_value demo_env demo_world wfs_ns 10 20 4326 =
     (Inr (Some (fresh_entry 1)),
      demo_world\<lparr>sent := [HttpGet demo_url], caches := [fresh_entry 1], next_pk := 2\<rparr>)"
  by (subst demo_fetch_wfs_ns) (simp_all add: demo_world_def)

theorem wfs_without_geometry_returns_none_witness:
  "query_type wfs_nogeom = WFS
   \<and> build_query_url demo_env wfs_nogeom 10 20 4326 = Inr (Some nogeom_url)
   \<and> requests_get demo_env nogeom_url = Inr ''<f><v>42</v></f>''
   \<and> parse_gml_geometry demo_env ''<f><v>42</v></f>'' (workspace (layer_typename wfs_nogeom))
        = Inr None
   \<and> retrieve_context_value demo_env demo_world wfs_nogeom 10 20 4326
        = (Inr None, demo_world\<lparr>sent := sent demo_world @ [HttpGet nogeom_url]\<rparr>)
   \<and> query_type wfs_ns = WFS
   \<and> build_query_url demo_env wfs_ns 10 20 4326 = Inr (Some demo_url)
   \<and> requests_get demo_env demo_url = Inr ''<f><v>42</v><box/></f>''
   \<and> parse_gml_geometry demo_env ''<f><v>42</v><box/></f>'' (workspace (layer_typename wfs_ns))
        = Inr (Some \<lparr>shape = (0, 0, 100, 100), geos_srid = None\<rparr>)
   \<and> fst (retrieve_context_value demo_env demo_world wfs_ns 10 20 4326)
        = Inr (Some (fresh_entry 1))
   \<and> srid wfs_ns = Some 4326
   \<and> geometry (fresh_entry 1) = Some \<lparr>shape = (0, 0, 100, 100), geos_srid = Some 4326\<rparr>"
proof -
  have wfs: "query_type wfs_nogeom = WFS" "query_type wfs_ns = WFS" "srid wfs_ns = Some 4326"
    by (simp_all add: wfs_nogeom_def wfs_ns_def)
  have built: "build_query_url demo_env wfs_ns 10 20 4326 = Inr (Some demo_url)"
    using demo_url_ns by (simp add: demo_url_def)
  from wfs_without_geometry_returns_none
    [OF wfs(1) demo_url_nogeom demo_nogeom_payload(1) demo_nogeom_payload(2),
      where w = demo_world]
  have 1: "retrieve_context_value demo_env demo_world wfs_nogeom 10 20 4326
          = (Inr None, demo_world\<lparr>sent := sent demo_world @ [HttpGet nogeom_url]\<rparr>)"
    by simp
  from wfs_without_geometry_returns_none
    [OF wfs(2) built demo_wfs_payload(1) demo_wfs_payload(2), where w = demo_world]
    demo_first_fetch wfs(3)
  have 2: "geometry (fresh_entry 1)
             = Some \<lparr>shape = (0, 0, 100, 100), geos_srid = Some 4326\<rparr>"
    by simp
  from wfs built 1 2 demo_url_nogeom demo_nogeom_payload(1,2) demo_wfs_payload demo_first_fetch
  show ?thesis by simp
qed

text \<open>
  C6 as stated fails: the payload of \<open>http://svc/nogeom\<close> has no geometry and holds
  the value \<open>42\<close> under the extraction rule, and the resolution returns \<open>None\<close>, not
  the value.
\<close>

theorem value_without_geometry_is_dropped:
  "query_type wfs_nogeom = WFS
   \<and> requests_get demo_env nogeom_url = Inr ''<f><v>42</v></f>''
   \<and> parse_gml_geometry demo_env ''<f><v>42</v></f>'' (workspace (layer_typename wfs_nogeom))
        = Inr None
   \<and> parse_request_value demo_env wfs_nogeom ''<f><v>42</v></f>'' = Inr (Some ''42'')
   \<and> fst (retrieve_context_value demo_env demo_world wfs_nogeom 10 20 4326) = Inr None"
proof -
  have wfs: "query_type wfs_nogeom = WFS"
    by (simp add: wfs_nogeom_def wfs_ns_def)
  then have "retrieve_context_value demo_env demo_world wfs_nogeom 10 20 4326
          = (Inr None, demo_world\<lparr>sent := sent demo_world @ [HttpGet nogeom_url]\<rparr>)"
    by (simp add: retrieve_context_value_def demo_url_nogeom demo_nogeom_payload Let_def)
  with wfs show ?thesis
    by (simp add: demo_nogeom_payload)
qed

section \<open>Properties of group resolution\<close>

lemma populate_loop_length:
  "populate_loop env x y s ks acc w = (Inr vals, w') \<Longrightarrow> length vals = length acc + length ks"
proof (induction ks arbitrary: acc w)
  case Nil
  then show ?case by simp
next
  case (Cons k ks)
  then show ?case
    by (auto split: prod.splits sum.splits)
qed

lemma populate_loop_append:
  "populate_loop env x y s (ks1 @ ks2) acc w =
     (case populate_loop env x y s ks1 acc w of
        (Inl e, w1) \<Rightarrow> (Inl e, w1)
      | (Inr vs, w1) \<Rightarrow> populate_loop env x y s ks2 vs w1)"
proof (induction ks1 arbitrary: acc w)
  case Nil
  then show ?case by simp
next
  case (Cons k ks1)
  then show ?case
    by (simp split: prod.splits sum.splits)
qed

lemma populate_loop_all_return:
  "\<forall>out\<in>set (resolve_in_turn env w x y s ks). \<not> isl (fst out)
   \<Longrightarrow> populate_loop env x y s ks acc w =
         (Inr (acc @ map (projr \<circ> fst) (resolve_in_turn env w x y s ks)),
          snd (last ((Inr None, w) # resolve_in_turn env w x y s ks)))"
proof (induction ks arbitrary: acc w)
  case Nil
  then show ?case by simp
next
  case (Cons k ks)
  obtain res w' where r: "retrieve_context env w x y k s = (res, w')"
    by (cases "retrieve_context env w x y k s")
  with Cons.prems have "\<not> isl res" by simp
  then obtain c where c: "res = Inr c" by (cases res) simp_all
  from Cons.prems r
  have "\<forall>out\<in>set (resolve_in_turn env w' x y s ks). \<not> isl (fst out)" by simp
  from Cons.IH [OF this, of "acc @ [c]"] r c show ?case by simp
qed

lemma demo_lookup_keys:
  "get_registry demo_world ''wfs_down'' = Inr wfs_down"
  "get_registry demo_world ''wfs_plain'' = Inr wfs_plain"
  "get_registry demo_world ''wfs_nogeom'' = Inr wfs_nogeom"
  by (simp_all add: get_registry_def demo_world_def wfs_ns_def wfs_plain_def wfs_down_def
        wfs_nogeom_def wms_demo_def rest_demo_def)

text \<open>
  C3, as the code has it. Group resolution of no keys returns the empty list. Group
  resolution of a list of keys followed by one more key is group resolution of the
  list; if that raised, its error and world, and the further key is not resolved;
  otherwise the further key is resolved in the world the list left, and either its
  error is the outcome, with no result list, or its result (\<open>None\<close> included, for a
  WFS answer without geometry) is added at the end of the list. So: when every key's
  resolution, each in the world the one before left, returns, the outcome is the list
  of these results, one per key and in the keys' order; a result list has one entry
  per key; and once a key has raised, whatever keys follow change neither the error
  nor the world.
\<close>

theorem group_resolution_stops_at_first_error:
  "populate_service_registry_values env w x y s [] = (Inr [], w)
   \<and> populate_service_registry_values env w x y s (pre @ [k]) =
       (case populate_service_registry_values env w x y s pre of
          (Inl e, wa) \<Rightarrow> (Inl e, wa)
        | (Inr vs, wa) \<Rightarrow>
            (case retrieve_context env wa x y k s of
               (Inl e, wb) \<Rightarrow> (Inl e, wb)
             | (Inr c, wb) \<Rightarrow> (Inr (vs @ [c]), wb)))
   \<and> ((\<forall>out\<in>set (resolve_in_turn env w x y s keys). \<not> isl (fst out))
        \<longrightarrow> populate_service_registry_values env w x y s keys =
              (Inr (map (projr \<circ> fst) (resolve_in_turn env w x y s keys)),
               snd (last ((Inr None, w) # resolve_in_turn env w x y s keys))))
   \<and> (populate_service_registry_values env w x y s keys = (Inr vals, w')
        \<longrightarrow> length vals = length keys)
   \<and> (populate_service_registry_values env w x y s pre = (Inl e, wa)
        \<longrightarrow> populate_service_registry_values env w x y s (pre @ post) = (Inl e, wa))"
proof (intro conjI impI)
  show "populate_service_registry_values env w x y s [] = (Inr [], w)"
    by (simp add: populate_service_registry_values_def)
next
  show "populate_service_registry_values env w x y s (pre @ [k]) =
       (case populate_service_registry_values env w x y s pre of
          (Inl e, wa) \<Rightarrow> (Inl e, wa)
        | (Inr vs, wa) \<Rightarrow>
            (case retrieve_context env wa x y k s of
               (Inl e, wb) \<Rightarrow> (Inl e, wb)
             | (Inr c, wb) \<Rightarrow> (Inr (vs @ [c]), wb)))"
    by (simp add: populate_service_registry_values_def populate_loop_append
          split: prod.splits sum.splits)
next
  assume "\<forall>out\<in>set (resolve_in_turn env w x y s keys). \<not> isl (fst out)"
  from populate_loop_all_return [OF this, of "[]"]
  show "populate_service_registry_values env w x y s keys =
          (Inr (map (projr \<circ> fst) (resolve_in_turn env w x y s keys)),
           snd (last ((Inr None, w) # resolve_in_turn env w x y s keys)))"
    by (simp add: populate_service_registry_values_def)
next
  assume "populate_service_registry_values env w x y s keys = (Inr vals, w')"
  then show "length vals = length keys"
    using populate_loop_length [of env x y s keys "[]" w vals w']
    by (simp add: populate_service_registry_values_def)
next
  assume "populate_service_registry_values env w x y s pre = (Inl e, wa)"
  then show "populate_service_registry_values env w x y s (pre @ post) = (Inl e, wa)"
    by (simp add: populate_service_registry_values_def populate_loop_append)
qed

lemma demo_group_first:
  "retrieve_context demo_env demo_world 10 20 ''wfs_ns'' 4326 =
     (Inr (Some (fresh_entry 1)),
      demo_world\<lparr>sent := [HttpGet demo_url], caches := [fresh_entry 1], next_pk := 2\<rparr>)"
proof -
  have "caches demo_world = []" by (simp add: demo_world_def)
  then show ?thesis
    by (simp add: retrieve_context_def demo_make_point demo_registries(1) demo_first_fetch)
qed

lemma demo_group_second:
  "retrieve_context demo_env
     (demo_world\<lparr>sent := [HttpGet demo_url], caches := [fresh_entry 1], next_pk := 2\<rparr>)
     10 20 ''wfs_down'' 4326 =
     (Inl (UpstreamError ''connection refused''),
      demo_world\<lparr>sent := [HttpGet demo_url, HttpGet down_url], caches := [fresh_entry 1],
        next_pk := 2\<rparr>)"
proof -
  let ?w = "demo_world\<lparr>sent := [HttpGet demo_url], caches := [fresh_entry 1], next_pk := 2\<rparr>"
  have reg: "get_registry ?w ''wfs_down'' = Inr wfs_down"
    using demo_lookup_keys(1) by (simp add: get_registry_def)
  have none: "filter (\<lambda>c. service_registry c = key wfs_down) (caches ?w) = []"
    by (simp add: fresh_entry_def wfs_down_def)
  have q: "query_type wfs_down \<noteq> WMS"
    by (simp add: wfs_down_def wfs_ns_def)
  have down: "requests_get demo_env down_url = Inl (UpstreamError ''connection refused'')"
    by (simp add: demo_env_def down_url_def)
  have "retrieve_context_value demo_env ?w wfs_down 10 20 4326 =
     (Inl (UpstreamError ''connection refused''),
      demo_world\<lparr>sent := [HttpGet demo_url, HttpGet down_url], caches := [fresh_entry 1],
        next_pk := 2\<rparr>)"
    by (simp add: retrieve_context_value_def q demo_url_down down Let_def)
  with reg none show ?thesis
    by (simp add: retrieve_context_def demo_make_point)
qed

lemma demo_group_nogeom:
  "retrieve_context demo_env
     (demo_world\<lparr>sent := [HttpGet demo_url], caches := [fresh_entry 1], next_pk := 2\<rparr>)
     10 20 ''wfs_nogeom'' 4326 =
     (Inr None,
      demo_world\<lparr>sent := [HttpGet demo_url, HttpGet nogeom_url], caches := [fresh_entry 1],
        next_pk := 2\<rparr>)"
proof -
  let ?w = "demo_world\<lparr>sent := [HttpGet demo_url], caches := [fresh_entry 1], next_pk := 2\<rparr>"
  have reg: "get_registry ?w ''wfs_nogeom'' = Inr wfs_nogeom"
    using demo_lookup_keys(3) by (simp add: get_registry_def)
  have none: "filter (\<lambda>c. service_registry c = key wfs_nogeom) (caches ?w) = []"
    by (simp add: fresh_entry_def wfs_nogeom_def)
  have q: "query_type wfs_nogeom \<noteq> WMS"
    by (simp add: wfs_nogeom_def wfs_ns_def)
  have "retrieve_context_value demo_env ?w wfs_nogeom 10 20 4326 =
     (Inr None,
      demo_world\<lparr>sent := [HttpGet demo_url, HttpGet nogeom_url], caches := [fresh_entry 1],
        next_pk := 2\<rparr>)"
    by (simp add: retrieve_context_value_def q demo_url_nogeom demo_nogeom_payload Let_def)
  with reg none show ?thesis
    by (simp add: retrieve_context_def demo_make_point)
qed

text \<open>
  Two runs in \<open>demo_world\<close>. The keys \<open>wfs_ns\<close>, \<open>wfs_nogeom\<close> both return, the
  second with \<open>None\<close>: the outcome is the list of the two results. The keys
  \<open>wfs_ns\<close>, \<open>wfs_down\<close>, \<open>wfs_plain\<close>: the second raises, and the outcome is its
  error in the world it left.
\<close>

theorem group_resolution_stops_at_first_error_witness:
  "populate_service_registry_values demo_env demo_world 10 20 4326 [] = (Inr [], demo_world)
   \<and> resolve_in_turn demo_env demo_world 10 20 4326 [''wfs_ns'', ''wfs_nogeom'']
       = [(Inr (Some (fresh_entry 1)),
           demo_world\<lparr>sent := [HttpGet demo_url], caches := [fresh_entry 1], next_pk := 2\<rparr>),
          (Inr None,
           demo_world\<lparr>sent := [HttpGet demo_url, HttpGet nogeom_url],
             caches := [fresh_entry 1], next_pk := 2\<rparr>)]
   \<and> populate_service_registry_values demo_env demo_world 10 20 4326
        [''wfs_ns'', ''wfs_nogeom'']
       = (Inr [Some (fresh_entry 1), None],
          demo_world\<lparr>sent := [HttpGet demo_url, HttpGet nogeom_url],
            caches := [fresh_entry 1], next_pk := 2\<rparr>)
   \<and> length [Some (fresh_entry 1), None] = length [''wfs_ns'', ''wfs_nogeom'']
   \<and> populate_service_registry_values demo_env demo_world 10 20 4326 ([] @ [''wfs_ns''])
       = (Inr ([] @ [Some (fresh_entry 1)]),
          demo_world\<lparr>sent := [HttpGet demo_url], caches := [fresh_entry 1], next_pk := 2\<rparr>)
   \<and> populate_service_registry_values demo_env demo_world 10 20 4326
        ([''wfs_ns''] @ [''wfs_down''])
       = (Inl (UpstreamError ''connection refused''),
          demo_world\<lparr>sent := [HttpGet demo_url, HttpGet down_url], caches := [fresh_entry 1],
            next_pk := 2\<rparr>)
   \<and> populate_service_registry_values demo_env demo_world 10 20 4326
        (([''wfs_ns''] @ [''wfs_down'']) @ [''wfs_plain''])
       = (Inl (UpstreamError ''connection refused''),
          demo_world\<lparr>sent := [HttpGet demo_url, HttpGet down_url], caches := [fresh_entry 1],
            next_pk := 2\<rparr>)"
proof -
  let ?w1 = "demo_world\<lparr>sent := [HttpGet demo_url], caches := [fresh_entry 1], next_pk := 2\<rparr>"
  let ?w2 = "demo_world\<lparr>sent := [HttpGet demo_url, HttpGet down_url],
               caches := [fresh_entry 1], next_pk := 2\<rparr>"
  let ?w3 = "demo_world\<lparr>sent := [HttpGet demo_url, HttpGet nogeom_url],
               caches := [fresh_entry 1], next_pk := 2\<rparr>"
  note grp = group_resolution_stops_at_first_error
    [where env = demo_env and w = demo_world and x = 10 and y = 20 and s = 4326]
  have 0: "populate_service_registry_values demo_env demo_world 10 20 4326 []
             = (Inr [], demo_world)"
    using grp by blast
  have turn: "resolve_in_turn demo_env demo_world 10 20 4326 [''wfs_ns'', ''wfs_nogeom'']
                = [(Inr (Some (fresh_entry 1)), ?w1), (Inr None, ?w3)]"
    by (simp add: demo_group_first demo_group_nogeom del: One_nat_def)
  from grp [where keys = "[''wfs_ns'', ''wfs_nogeom'']"]
  have "(\<forall>out\<in>set (resolve_in_turn demo_env demo_world 10 20 4326
                     [''wfs_ns'', ''wfs_nogeom'']). \<not> isl (fst out))
        \<longrightarrow> populate_service_registry_values demo_env demo_world 10 20 4326
              [''wfs_ns'', ''wfs_nogeom''] =
              (Inr (map (projr \<circ> fst) (resolve_in_turn demo_env demo_world 10 20 4326
                     [''wfs_ns'', ''wfs_nogeom''])),
               snd (last ((Inr None, demo_world) # resolve_in_turn demo_env demo_world 10 20
                     4326 [''wfs_ns'', ''wfs_nogeom''])))"
    by blast
  then have both: "populate_service_registry_values demo_env demo_world 10 20 4326
                [''wfs_ns'', ''wfs_nogeom''] = (Inr [Some (fresh_entry 1), None], ?w3)"
    unfolding turn by (simp del: One_nat_def)
  from grp [where keys = "[''wfs_ns'', ''wfs_nogeom'']"
      and vals = "[Some (fresh_entry 1), None]" and w' = ?w3] both
  have len: "length [Some (fresh_entry 1), None] = length [''wfs_ns'', ''wfs_nogeom'']"
    by blast
  from grp [where pre = "[]" and k = "''wfs_ns''"]
  have "populate_service_registry_values demo_env demo_world 10 20 4326 ([] @ [''wfs_ns'']) =
       (case populate_service_registry_values demo_env demo_world 10 20 4326 [] of
          (Inl e, wa) \<Rightarrow> (Inl e, wa)
        | (Inr vs, wa) \<Rightarrow>
            (case retrieve_context demo_env wa 10 20 ''wfs_ns'' 4326 of
               (Inl e, wb) \<Rightarrow> (Inl e, wb)
             | (Inr c, wb) \<Rightarrow> (Inr (vs @ [c]), wb)))"
    by blast
  then have 1: "populate_service_registry_values demo_env demo_world 10 20 4326
                  ([] @ [''wfs_ns'']) = (Inr ([] @ [Some (fresh_entry 1)]), ?w1)"
    unfolding 0 by (simp add: demo_group_first del: One_nat_def)
  from grp [where pre = "[''wfs_ns'']" and k = "''wfs_down''"]
  have "populate_service_registry_values demo_env demo_world 10 20 4326
          ([''wfs_ns''] @ [''wfs_down'']) =
       (case populate_service_registry_values demo_env demo_world 10 20 4326 [''wfs_ns''] of
          (Inl e, wa) \<Rightarrow> (Inl e, wa)
        | (Inr vs, wa) \<Rightarrow>
            (case retrieve_context demo_env wa 10 20 ''wfs_down'' 4326 of
               (Inl e, wb) \<Rightarrow> (Inl e, wb)
             | (Inr c, wb) \<Rightarrow> (Inr (vs @ [c]), wb)))"
    by blast
  with 1 have 2: "populate_service_registry_values demo_env demo_world 10 20 4326
                  ([''wfs_ns''] @ [''wfs_down''])
                = (Inl (UpstreamError ''connection refused''), ?w2)"
    by (simp add: demo_group_second del: One_nat_def)
  from grp [where pre = "[''wfs_ns''] @ [''wfs_down'']" and post = "[''wfs_plain'']"
      and e = "UpstreamError ''connection refused''" and wa = ?w2] 2
  have 3: "populate_service_registry_values demo_env demo_world 10 20 4326
             (([''wfs_ns''] @ [''wfs_down'']) @ [''wfs_plain''])
           = (Inl (UpstreamError ''connection refused''), ?w2)"
    by blast
  from 0 turn both len 1 2 3 show ?thesis by blast
qed

text \<open>
  C3 as stated fails: of three keys the second fails (its service is down). The
  result is the error, not a list of three entries; the third key is never
  resolved (two requests were sent, one entry stored).
\<close>

theorem failing_key_aborts_the_group:
  "fst (populate_service_registry_values demo_env demo_world 10 20 4326
          [''wfs_ns'', ''wfs_down'', ''wfs_plain''])
     = Inl (UpstreamError ''connection refused'')
   \<and> sent (snd (populate_service_registry_values demo_env demo_world 10 20 4326
          [''wfs_ns'', ''wfs_down'', ''wfs_plain'']))
     = [HttpGet demo_url, HttpGet down_url]
   \<and> caches (snd (populate_service_registry_values demo_env demo_world 10 20 4326
          [''wfs_ns'', ''wfs_down'', ''wfs_plain'']))
     = [fresh_entry 1]"
  by (simp add: populate_service_registry_values_def demo_group_first demo_group_second
        del: One_nat_def)

end
